theory Spec2Isabelle
  imports
    Complex_Main
    "HOL-Library.Finite_Map"
    "HOL-Library.Char_ord"
    "HOL-Library.List_Lexorder"
begin

section \<open>The data model\<close>

text \<open>
  The state document is \<open>{version, settings, habits, completions}\<close>.  A habit is an object
  with the fields below.  The completion log is an object keyed by date string whose values
  are objects keyed by habit id; the program only ever reads the truthiness of a stored
  value (\<open>if (day[habitId])\<close>, \<open>!!(...)\<close>) and only ever stores \<open>true\<close>, so a day object
  is a finite map from habit id to the truthiness of the stored value.  The finite maps
  hold the own members of the objects; the log and its day objects are plain objects,
  whose prototype is \<open>Object.prototype\<close>.
\<close>

record habit =
  hid :: string
  name :: string
  targetPerWeek :: int
  active :: bool
  createdAtISO :: string
  habit_notes :: string

type_synonym day_obj = "(string, bool) fmap"

type_synonym completions = "(string, day_obj) fmap"

record app_state =
  weekStartsOn :: nat
  habits :: "habit list"
  completions :: completions

section \<open>Members inherited from the prototype\<close>

text \<open>
  A member access \<open>obj[key]\<close> that finds no own member continues in the prototype.  Every
  plain object inherits the members of \<open>Object.prototype\<close> named below: eleven functions
  and the accessor \<open>__proto__\<close>, which reads as the prototype itself.  All of them are
  truthy.
\<close>

definition Object_prototype_names :: "string list" where
  "Object_prototype_names =
     [''constructor'', ''hasOwnProperty'', ''isPrototypeOf'', ''propertyIsEnumerable'',
      ''toLocaleString'', ''toString'', ''valueOf'', ''__defineGetter__'', ''__defineSetter__'',
      ''__lookupGetter__'', ''__lookupSetter__'', ''__proto__'']"

text \<open>
  The members of the inherited functions themselves, as far as they are truthy.  A function
  inherits \<open>apply\<close>, \<open>bind\<close>, \<open>call\<close>, \<open>constructor\<close> and \<open>toString\<close> from
  \<open>Function.prototype\<close> and, behind it, the members of \<open>Object.prototype\<close>; it has its
  own \<open>name\<close>, a non-empty string, and its own \<open>length\<close>, which is 0 for the three
  methods without a parameter.  \<open>Object.prototype.constructor\<close> is the function \<open>Object\<close>
  with its \<open>prototype\<close> and its static methods (those of ECMAScript 2024).  The members
  \<open>caller\<close> and \<open>arguments\<close> of a built-in function do not read as a truthy value (the
  accessors inherited from \<open>Function.prototype\<close> raise \<open>TypeError\<close>).
\<close>

definition Function_prototype_names :: "string list" where
  "Function_prototype_names = [''apply'', ''bind'', ''call'', ''constructor'', ''toString'']"

definition Object_constructor_names :: "string list" where
  "Object_constructor_names =
     [''length'', ''name'', ''prototype'', ''assign'', ''create'', ''defineProperties'',
      ''defineProperty'', ''entries'', ''freeze'', ''fromEntries'', ''getOwnPropertyDescriptor'',
      ''getOwnPropertyDescriptors'', ''getOwnPropertyNames'', ''getOwnPropertySymbols'',
      ''getPrototypeOf'', ''groupBy'', ''hasOwn'', ''is'', ''isExtensible'', ''isFrozen'',
      ''isSealed'', ''keys'', ''preventExtensions'', ''seal'', ''setPrototypeOf'', ''values'']"

definition nullary_methods :: "string list" where
  "nullary_methods = [''toLocaleString'', ''toString'', ''valueOf'']"

text \<open>
  \<open>day[habitId]\<close> on a day object, as a truth value: the own member when there is one,
  and otherwise truthy exactly for the names inherited from \<open>Object.prototype\<close>.
\<close>

definition day_member :: "day_obj \<Rightarrow> string \<Rightarrow> bool" where
  "day_member day habitId =
     (case fmlookup day habitId of
        Some v \<Rightarrow> v
      | None \<Rightarrow> habitId \<in> set Object_prototype_names)"

text \<open>
  \<open>completions?.[dateISO]?.[habitId]\<close> when the log has no own member \<open>dateISO\<close>, as a
  truth value.  \<open>completions[dateISO]\<close> is then \<open>undefined\<close>, and the chain stops, unless
  \<open>dateISO\<close> is one of the inherited names: \<open>__proto__\<close> gives \<open>Object.prototype\<close>, whose
  own members are the names above and whose own \<open>__proto__\<close> reads \<open>null\<close>; the other
  names give a built-in function.
\<close>

definition inherited_member :: "string \<Rightarrow> string \<Rightarrow> bool" where
  "inherited_member dateISO habitId =
     (if dateISO \<notin> set Object_prototype_names then False
      else if dateISO = ''__proto__''
        then habitId \<in> set Object_prototype_names \<and> habitId \<noteq> ''__proto__''
      else habitId \<in> set Function_prototype_names
         \<or> habitId \<in> set Object_prototype_names
         \<or> (if dateISO = ''constructor'' then habitId \<in> set Object_constructor_names
             else habitId = ''name''
                \<or> habitId = ''length'' \<and> dateISO \<notin> set nullary_methods))"

section \<open>Completion store accessors\<close>

text \<open>\<open>getActiveHabits(habits) = habits.filter((h) => h.active)\<close>\<close>

definition getActiveHabits :: "habit list \<Rightarrow> habit list" where
  "getActiveHabits hs = filter active hs"

text \<open>
  \<open>isCompleted(completions, dateISO, habitId) = !!(completions?.[dateISO]?.[habitId])\<close>:
  the call returns \<open>true\<close>.
\<close>

definition isCompleted :: "completions \<Rightarrow> string \<Rightarrow> string \<Rightarrow> bool" where
  "isCompleted c dateISO habitId =
     (case fmlookup c dateISO of
        Some day \<Rightarrow> day_member day habitId
      | None \<Rightarrow> inherited_member dateISO habitId)"

text \<open>
  \<open>toggleCompletion\<close>: \<open>day\<close> is a fresh copy of \<open>completions[dateISO] || {}\<close> (the spread
  copies own members only, so an inherited \<open>completions[dateISO]\<close> gives an empty copy);
  the id is deleted when \<open>day[habitId]\<close> is truthy, which deletes nothing when the member is
  an inherited one, and set to \<open>true\<close> otherwise; \<open>next\<close> is a fresh copy of the log with
  the own member \<open>dateISO\<close> defined as \<open>day\<close>; when \<open>Object.keys(next[dateISO]).length === 0\<close>
  the key is deleted from a further copy.
\<close>

definition toggleCompletion :: "completions \<Rightarrow> string \<Rightarrow> string \<Rightarrow> completions" where
  "toggleCompletion c dateISO habitId =
     (let day0 = (case fmlookup c dateISO of None \<Rightarrow> fmempty | Some d \<Rightarrow> d);
          day = (if day_member day0 habitId
                 then fmdrop habitId day0
                 else fmupd habitId True day0);
          next = fmupd dateISO day c
      in if fmdom day = {||} then fmdrop dateISO next else next)"

text \<open>
  \<open>deleteHabit\<close>: the habit is filtered out of the list, and the log is rebuilt from
  \<open>Object.entries(prev.completions)\<close>: each day is copied, the id deleted from the copy, and
  the copy stored in the new log only when \<open>Object.keys(copy).length > 0\<close>.  The store is
  the assignment \<open>nextCompletions[dateISO] = copy\<close>, which for the key \<open>__proto__\<close> calls
  the inherited setter and adds no member.
\<close>

definition deleteHabit_step :: "string \<Rightarrow> string \<times> day_obj \<Rightarrow> completions \<Rightarrow> completions" where
  "deleteHabit_step habitId e nextCompletions =
     (let copy = fmdrop habitId (snd e)
      in if fmdom copy \<noteq> {||} \<and> fst e \<noteq> ''__proto__''
         then fmupd (fst e) copy nextCompletions else nextCompletions)"

definition deleteHabit_completions :: "string \<Rightarrow> completions \<Rightarrow> completions" where
  "deleteHabit_completions habitId c =
     fold (deleteHabit_step habitId) (sorted_list_of_fmap c) fmempty"

definition deleteHabit :: "string \<Rightarrow> app_state \<Rightarrow> app_state" where
  "deleteHabit habitId prev =
     prev\<lparr> habits := filter (\<lambda>h. hid h \<noteq> habitId) (habits prev),
           completions := deleteHabit_completions habitId (completions prev) \<rparr>"

text \<open>
  A log represents a map from dates to non-empty sets of habit ids when every day object
  present has at least one key and stores \<open>true\<close> under each of its keys.
\<close>

definition nonempty_days :: "completions \<Rightarrow> bool" where
  "nonempty_days c =
     fmpred (\<lambda>d day. fmdom day \<noteq> {||} \<and> fmpred (\<lambda>h v. v) day) c"

text \<open>The day object under \<open>dateISO\<close> has an own member \<open>habitId\<close>.\<close>

definition holds_key :: "completions \<Rightarrow> string \<Rightarrow> string \<Rightarrow> bool" where
  "holds_key c dateISO habitId =
     (case fmlookup c dateISO of None \<Rightarrow> False | Some day \<Rightarrow> habitId |\<in>| fmdom day)"

subsection \<open>The objects in the store\<close>








section \<open>ECMAScript numbers and strings\<close>

text \<open>
  The program calls \<open>Number\<close> on the pieces of a date key, \<open>String\<close> (through a template
  literal and \<open>padStart\<close>) on the calendar fields of a date, and \<open>split("-")\<close>.  A Number is
  \<open>NaN\<close>, an infinity or a finite value; finite values are exact rationals here, so the
  rounding of a literal to a double is not modelled.  Strings are lists of code units below
  256.  \<open>Number\<close> follows the StringToNumber grammar: white space is trimmed, the empty
  string is 0, then come the radix literals \<open>0x\<close>, \<open>0o\<close>, \<open>0b\<close>, and the signed decimal
  literals with optional fraction and exponent, and \<open>Infinity\<close>.
\<close>

datatype jsnum = NaN | PosInf | NegInf | Fin rat

definition is_ws :: "char \<Rightarrow> bool" where
  "is_ws c = (of_char c \<in> set [9, 10, 11, 12, 13, 32, 160 :: nat])"

definition trim :: "string \<Rightarrow> string" where
  "trim s = rev (dropWhile is_ws (rev (dropWhile is_ws s)))"

definition is_digit :: "char \<Rightarrow> bool" where
  "is_digit c = (48 \<le> (of_char c :: nat) \<and> (of_char c :: nat) \<le> 57)"

definition digit_val :: "char \<Rightarrow> int" where
  "digit_val c =
     (let n = int (of_char c)
      in if 48 \<le> n \<and> n \<le> 57 then n - 48
         else if 97 \<le> n \<and> n \<le> 102 then n - 87
         else if 65 \<le> n \<and> n \<le> 70 then n - 55
         else 36)"

definition radix_val :: "int \<Rightarrow> string \<Rightarrow> int" where
  "radix_val b s = foldl (\<lambda>n c. b * n + digit_val c) 0 s"

definition is_radix_digit :: "int \<Rightarrow> char \<Rightarrow> bool" where
  "is_radix_digit b c = (digit_val c < b)"

definition digits :: "string \<Rightarrow> bool" where
  "digits s = (s \<noteq> [] \<and> list_all is_digit s)"

definition pow10 :: "int \<Rightarrow> rat" where
  "pow10 e = (if 0 \<le> e then 10 ^ nat e else 1 / 10 ^ nat (- e))"

definition exponent_part :: "string \<Rightarrow> int option" where
  "exponent_part s =
     (case s of
        [] \<Rightarrow> Some 0
      | c # r \<Rightarrow>
          if c = CHR ''e'' \<or> c = CHR ''E'' then
            (if r \<noteq> [] \<and> hd r = CHR ''+'' then
               (if digits (tl r) then Some (radix_val 10 (tl r)) else None)
             else if r \<noteq> [] \<and> hd r = CHR ''-'' then
               (if digits (tl r) then Some (- radix_val 10 (tl r)) else None)
             else if digits r then Some (radix_val 10 r) else None)
          else None)"

definition unsigned_decimal :: "string \<Rightarrow> jsnum" where
  "unsigned_decimal s =
     (if s = ''Infinity'' then PosInf
      else
        let ip = takeWhile is_digit s;
            r1 = dropWhile is_digit s;
            dot = (r1 \<noteq> [] \<and> hd r1 = CHR ''.'');
            fp = (if dot then takeWhile is_digit (tl r1) else []);
            r2 = (if dot then dropWhile is_digit (tl r1) else r1)
        in if ip = [] \<and> fp = [] then NaN
           else (case exponent_part r2 of
                   None \<Rightarrow> NaN
                 | Some e \<Rightarrow> Fin (of_int (radix_val 10 (ip @ fp)) * pow10 (e - int (length fp)))))"

definition negate :: "jsnum \<Rightarrow> jsnum" where
  "negate v = (case v of NaN \<Rightarrow> NaN | PosInf \<Rightarrow> NegInf | NegInf \<Rightarrow> PosInf | Fin r \<Rightarrow> Fin (- r))"

definition radix_base :: "char \<Rightarrow> int option" where
  "radix_base c =
     (if c = CHR ''x'' \<or> c = CHR ''X'' then Some 16
      else if c = CHR ''o'' \<or> c = CHR ''O'' then Some 8
      else if c = CHR ''b'' \<or> c = CHR ''B'' then Some 2
      else None)"

definition radix_literal :: "string \<Rightarrow> jsnum option" where
  "radix_literal t =
     (case t of
        c1 # c2 # ds \<Rightarrow>
          (case radix_base c2 of
             Some b \<Rightarrow>
               if c1 = CHR ''0'' then
                 Some (if ds \<noteq> [] \<and> list_all (is_radix_digit b) ds
                       then Fin (of_int (radix_val b ds)) else NaN)
               else None
           | None \<Rightarrow> None)
      | _ \<Rightarrow> None)"

definition Number :: "string \<Rightarrow> jsnum" where
  "Number s =
     (let t = trim s
      in if t = [] then Fin 0
         else (case radix_literal t of
                 Some v \<Rightarrow> v
               | None \<Rightarrow>
                   if hd t = CHR ''+'' then unsigned_decimal (tl t)
                   else if hd t = CHR ''-'' then negate (unsigned_decimal (tl t))
                   else unsigned_decimal t))"


definition digit_char :: "nat \<Rightarrow> char" where
  "digit_char d = ''0123456789'' ! d"

fun decimal :: "nat \<Rightarrow> string" where
  "decimal n = (if 10 \<le> n then decimal (n div 10) else []) @ [digit_char (n mod 10)]"

declare decimal.simps [simp del]

definition String_int :: "int \<Rightarrow> string" where
  "String_int i = (if i < 0 then ''-'' @ decimal (nat (- i)) else decimal (nat i))"

definition String_num :: "int option \<Rightarrow> string" where
  "String_num v = (case v of None \<Rightarrow> ''NaN'' | Some i \<Rightarrow> String_int i)"

definition padStart2 :: "string \<Rightarrow> string" where
  "padStart2 s = replicate (2 - length s) CHR ''0'' @ s"

definition pad2 :: "int option \<Rightarrow> string" where
  "pad2 n = padStart2 (String_num n)"

fun split_on :: "char \<Rightarrow> string \<Rightarrow> string list" where
  "split_on sep [] = [[]]"
| "split_on sep (c # cs) =
     (if c = sep then [] # split_on sep cs
      else (case split_on sep cs of [] \<Rightarrow> [[c]] | w # ws \<Rightarrow> (c # w) # ws))"

section \<open>ECMAScript dates\<close>

text \<open>
  A \<open>Date\<close> is either invalid (time value \<open>NaN\<close>) or a point in time.  This section
  and the next ones are the program in a time zone whose offset never changes: there the
  program's dates are determined by their local day number, the number of days since
  1970-01-01 of the local calendar (it reads and writes dates only through their local
  calendar fields, and every date it compares is a local midnight).  Zones with clock
  changes, where dates are instants with a time of day, come after them.
  \<open>DayFromYear\<close>, \<open>YearFromTime\<close>, \<open>MonthFromTime\<close>, \<open>DateFromTime\<close>, \<open>WeekDay\<close>, \<open>MakeDay\<close>
  and \<open>TimeClip\<close> are the abstract operations of the language standard at day granularity;
  \<open>YearFromTime\<close> is computed from an estimate that is off by at most one year
  (lemma \<open>YearFromTime_bounds\<close> shows that it is the largest year starting on or before the
  day).  \<open>TimeClip\<close> keeps the days within 100,000,000 days of the epoch.
\<close>

datatype jsdate = InvalidDate | LocalDay int

definition DayFromYear :: "int \<Rightarrow> int" where
  "DayFromYear y = 365 * (y - 1970) + (y - 1969) div 4 - (y - 1901) div 100 + (y - 1601) div 400"

definition InLeapYear :: "int \<Rightarrow> bool" where
  "InLeapYear y = (y mod 4 = 0 \<and> (y mod 100 \<noteq> 0 \<or> y mod 400 = 0))"

definition DaysInYear :: "int \<Rightarrow> int" where
  "DaysInYear y = (if InLeapYear y then 366 else 365)"

definition YearFromTime :: "int \<Rightarrow> int" where
  "YearFromTime z =
     (let y = 1970 + (400 * z) div 146097
      in if z < DayFromYear y then y - 1
         else if DayFromYear (y + 1) \<le> z then y + 1
         else y)"




definition month_start :: "bool \<Rightarrow> int \<Rightarrow> int" where
  "month_start leap m =
     (if m = 0 then 0
      else if m = 1 then 31
      else (if leap then 1 else 0) +
        (if m = 2 then 59
         else if m = 3 then 90
         else if m = 4 then 120
         else if m = 5 then 151
         else if m = 6 then 181
         else if m = 7 then 212
         else if m = 8 then 243
         else if m = 9 then 273
         else if m = 10 then 304
         else if m = 11 then 334
         else 365))"

definition DayWithinYear :: "int \<Rightarrow> int" where
  "DayWithinYear z = z - DayFromYear (YearFromTime z)"

definition MonthFromTime :: "int \<Rightarrow> int" where
  "MonthFromTime z =
     (let d = DayWithinYear z; l = (if InLeapYear (YearFromTime z) then 1 else 0)
      in if d < 31 then 0
         else if d < 59 + l then 1
         else if d < 90 + l then 2
         else if d < 120 + l then 3
         else if d < 151 + l then 4
         else if d < 181 + l then 5
         else if d < 212 + l then 6
         else if d < 243 + l then 7
         else if d < 273 + l then 8
         else if d < 304 + l then 9
         else if d < 334 + l then 10
         else 11)"

definition DateFromTime :: "int \<Rightarrow> int" where
  "DateFromTime z =
     DayWithinYear z - month_start (InLeapYear (YearFromTime z)) (MonthFromTime z) + 1"

definition WeekDay :: "int \<Rightarrow> int" where
  "WeekDay z = (z + 4) mod 7"

definition MakeDay :: "int \<Rightarrow> int \<Rightarrow> int \<Rightarrow> int" where
  "MakeDay year month date =
     (let ym = year + month div 12; mn = month mod 12
      in DayFromYear ym + month_start (InLeapYear ym) mn + date - 1)"

definition DaysInMonth :: "int \<Rightarrow> int \<Rightarrow> int" where
  "DaysInMonth y m = month_start (InLeapYear y) (m + 1) - month_start (InLeapYear y) m"

text \<open>
  \<open>new Date(y, m, d)\<close>: a non-finite argument gives the invalid date, a year from 0 to 99
  means 1900 + year, and \<open>MakeDay\<close> carries months and days that are out of range.  The
  getters return \<open>NaN\<close> (here \<open>None\<close>) on the invalid date; \<open>setDate\<close> and \<open>setMonth\<close>
  rebuild the day from the other two fields and leave an invalid date invalid.
\<close>

definition trunc :: "rat \<Rightarrow> int" where
  "trunc r = (if 0 \<le> r then \<lfloor>r\<rfloor> else \<lceil>r\<rceil>)"

definition finite_int :: "jsnum \<Rightarrow> int option" where
  "finite_int v = (case v of Fin r \<Rightarrow> Some (trunc r) | _ \<Rightarrow> None)"

definition num_sub :: "jsnum \<Rightarrow> rat \<Rightarrow> jsnum" where
  "num_sub v k = (case v of Fin r \<Rightarrow> Fin (r - k) | _ \<Rightarrow> v)"

definition TimeClip :: "int \<Rightarrow> jsdate" where
  "TimeClip z = (if \<bar>z\<bar> \<le> 100000000 then LocalDay z else InvalidDate)"

definition Date_ymd :: "jsnum \<Rightarrow> jsnum \<Rightarrow> jsnum \<Rightarrow> jsdate" where
  "Date_ymd y m d =
     (case (finite_int y, finite_int m, finite_int d) of
        (Some yi, Some mi, Some di) \<Rightarrow>
          TimeClip (MakeDay (if 0 \<le> yi \<and> yi \<le> 99 then 1900 + yi else yi) mi di)
      | _ \<Rightarrow> InvalidDate)"

definition getFullYear :: "jsdate \<Rightarrow> int option" where
  "getFullYear d = (case d of InvalidDate \<Rightarrow> None | LocalDay z \<Rightarrow> Some (YearFromTime z))"

definition getMonth :: "jsdate \<Rightarrow> int option" where
  "getMonth d = (case d of InvalidDate \<Rightarrow> None | LocalDay z \<Rightarrow> Some (MonthFromTime z))"

definition getDate :: "jsdate \<Rightarrow> int option" where
  "getDate d = (case d of InvalidDate \<Rightarrow> None | LocalDay z \<Rightarrow> Some (DateFromTime z))"

definition getDay :: "jsdate \<Rightarrow> int option" where
  "getDay d = (case d of InvalidDate \<Rightarrow> None | LocalDay z \<Rightarrow> Some (WeekDay z))"

definition setDate :: "jsdate \<Rightarrow> int option \<Rightarrow> jsdate" where
  "setDate d dt =
     (case (d, dt) of
        (LocalDay z, Some n) \<Rightarrow> TimeClip (MakeDay (YearFromTime z) (MonthFromTime z) n)
      | _ \<Rightarrow> InvalidDate)"

definition setMonth :: "jsdate \<Rightarrow> int option \<Rightarrow> jsdate" where
  "setMonth d m =
     (case (d, m) of
        (LocalDay z, Some n) \<Rightarrow> TimeClip (MakeDay (YearFromTime z) n (DateFromTime z))
      | _ \<Rightarrow> InvalidDate)"

section \<open>Calendar utilities\<close>

text \<open>
  \<open>toISODate(d)\<close> is \<open>`${dt.getFullYear()}-${pad2(dt.getMonth() + 1)}-${pad2(dt.getDate())}`\<close>
  and \<open>parseISODate(iso)\<close> is \<open>new Date(y, m - 1, d)\<close> for
  \<open>[y, m, d] = iso.split("-").map(Number)\<close>; a missing component is \<open>undefined\<close>, which
  is \<open>NaN\<close> as a number.  \<open>addDays(date, n)\<close> is \<open>d.setDate(d.getDate() + n)\<close> on a copy.
  \<open>setHours(0, 0, 0, 0)\<close> does not change the day.  \<open>%\<close> is the remainder with the sign of
  the dividend.  \<open>d <= end\<close> compares time values, here of two local midnights, and is
  false when either is \<open>NaN\<close>.
\<close>

definition num_add :: "int option \<Rightarrow> int \<Rightarrow> int option" where
  "num_add v n = map_option (\<lambda>x. x + n) v"

definition toISODate :: "jsdate \<Rightarrow> string" where
  "toISODate dt =
     String_num (getFullYear dt) @ ''-'' @ pad2 (num_add (getMonth dt) 1) @ ''-''
       @ pad2 (getDate dt)"

definition nth_num :: "jsnum list \<Rightarrow> nat \<Rightarrow> jsnum" where
  "nth_num xs i = (if i < length xs then xs ! i else NaN)"

definition parseISODate :: "string \<Rightarrow> jsdate" where
  "parseISODate isoStr =
     (let parts = map Number (split_on CHR ''-'' isoStr);
          y = nth_num parts 0; m = nth_num parts 1; d = nth_num parts 2
      in Date_ymd y (num_sub m 1) d)"

definition addDays :: "jsdate \<Rightarrow> int \<Rightarrow> jsdate" where
  "addDays date n = setDate date (num_add (getDate date) n)"

definition date_le :: "jsdate \<Rightarrow> jsdate \<Rightarrow> bool" where
  "date_le a b = (case (a, b) of (LocalDay x, LocalDay y) \<Rightarrow> x \<le> y | _ \<Rightarrow> False)"

definition setHours0 :: "jsdate \<Rightarrow> jsdate" where
  "setHours0 d = d"

definition js_rem :: "int \<Rightarrow> int \<Rightarrow> int" where
  "js_rem a b = sgn a * (\<bar>a\<bar> mod \<bar>b\<bar>)"

definition startOfWeek :: "jsdate \<Rightarrow> int \<Rightarrow> jsdate" where
  "startOfWeek date wso =
     (let day = getDay date;
          diff = map_option (\<lambda>dy. js_rem (dy - wso + 7) 7) day
      in setHours0 (setDate date
           (case (getDate date, diff) of (Some dt, Some df) \<Rightarrow> Some (dt - df) | _ \<Rightarrow> None)))"

definition startOfMonth :: "jsdate \<Rightarrow> jsdate" where
  "startOfMonth date = setHours0 (setDate date (Some 1))"

section \<open>Arithmetic of the calendar\<close>

lemma div_bounds:
  fixes n k :: int
  assumes "0 < k"
  shows "n - k + 1 \<le> k * (n div k)" "k * (n div k) \<le> n"
proof -
  have "k * (n div k) + n mod k = n" by simp
  moreover have "0 \<le> n mod k" "n mod k < k" using assms by simp_all
  ultimately show "n - k + 1 \<le> k * (n div k)" "k * (n div k) \<le> n" by linarith+
qed

lemma div_int_Suc:
  fixes n k :: int
  assumes "0 < k"
  shows "(n + 1) div k = n div k + (if (n + 1) mod k = 0 then 1 else 0)"
proof -
  define q r where "q = n div k" and "r = n mod k"
  have n: "n = k * q + r" and r: "0 \<le> r" "r < k"
    using assms by (simp_all add: q_def r_def)
  show ?thesis
  proof (cases "r + 1 = k")
    case True
    then have eq: "n + 1 = k * (q + 1) + 0" using n by (simp add: algebra_simps)
    have "(n + 1) div k = q + 1" using int_div_pos_eq [OF eq] assms by simp
    moreover have "(n + 1) mod k = 0" using int_mod_pos_eq [OF eq] assms by simp
    ultimately show ?thesis by (simp add: q_def)
  next
    case False
    then have lt: "r + 1 < k" using r by simp
    have eq: "n + 1 = k * q + (r + 1)" using n by simp
    have "(n + 1) div k = q" using int_div_pos_eq [OF eq _ lt] r by simp
    moreover have "(n + 1) mod k = r + 1" using int_mod_pos_eq [OF eq _ lt] r by simp
    ultimately show ?thesis using r by (simp add: q_def)
  qed
qed

lemma leap_mods:
  "(y - 1968) mod 4 = 0 \<longleftrightarrow> y mod 4 = (0::int)"
  "(y - 1900) mod 100 = 0 \<longleftrightarrow> y mod 100 = (0::int)"
  "(y - 1600) mod 400 = 0 \<longleftrightarrow> y mod 400 = (0::int)"
  by presburger+

lemma mod_400_100_4:
  "y mod 400 = 0 \<Longrightarrow> y mod 100 = (0::int)"
  "y mod 100 = 0 \<Longrightarrow> y mod 4 = (0::int)"
  by presburger+

lemma not_mod_4_100_400:
  "y mod 4 \<noteq> 0 \<Longrightarrow> y mod 100 \<noteq> (0::int)"
  "y mod 4 \<noteq> 0 \<Longrightarrow> y mod 400 \<noteq> (0::int)"
  "y mod 100 \<noteq> 0 \<Longrightarrow> y mod 400 \<noteq> (0::int)"
  by presburger+

lemma DaysInYear_cases:
  "DaysInYear y = 365 + (if y mod 4 = 0 then 1 else 0) - (if y mod 100 = 0 then 1 else 0)
     + (if y mod 400 = 0 then 1 else 0)"
proof (cases "y mod 4 = 0")
  case False
  then have "y mod 100 \<noteq> 0" "y mod 400 \<noteq> 0" by (rule not_mod_4_100_400)+
  with False show ?thesis by (simp add: DaysInYear_def InLeapYear_def)
next
  case True
  show ?thesis
  proof (cases "y mod 100 = 0")
    case False
    then have "y mod 400 \<noteq> 0" by (rule not_mod_4_100_400)
    with False True show ?thesis by (simp add: DaysInYear_def InLeapYear_def)
  next
    case c100: True
    show ?thesis
      by (cases "y mod 400 = 0") (simp_all add: True c100 DaysInYear_def InLeapYear_def)
  qed
qed

lemma DayFromYear_Suc: "DayFromYear (y + 1) = DayFromYear y + DaysInYear y"
proof -
  have a: "(y + 1 - 1969) div 4 = (y - 1969) div 4 + (if y mod 4 = 0 then 1 else 0)"
    using div_int_Suc [of 4 "y - 1969"] leap_mods(1) [of y] by (simp add: algebra_simps)
  have b: "(y + 1 - 1901) div 100 = (y - 1901) div 100 + (if y mod 100 = 0 then 1 else 0)"
    using div_int_Suc [of 100 "y - 1901"] leap_mods(2) [of y] by (simp add: algebra_simps)
  have c: "(y + 1 - 1601) div 400 = (y - 1601) div 400 + (if y mod 400 = 0 then 1 else 0)"
    using div_int_Suc [of 400 "y - 1601"] leap_mods(3) [of y] by (simp add: algebra_simps)
  show ?thesis
    unfolding DayFromYear_def DaysInYear_cases a b c
    by (simp only: algebra_simps)
qed

lemma DayFromYear_approx:
  "146097 * (y - 1970) - 506 \<le> 400 * DayFromYear y"
  "400 * DayFromYear y \<le> 146097 * (y - 1970) + 589"
proof -
  define a b c where "a = (y - 1969) div 4" and "b = (y - 1901) div 100"
    and "c = (y - 1601) div 400"
  have "y - 1969 - 4 + 1 \<le> 4 * a" "4 * a \<le> y - 1969"
    "y - 1901 - 100 + 1 \<le> 100 * b" "100 * b \<le> y - 1901"
    "y - 1601 - 400 + 1 \<le> 400 * c" "400 * c \<le> y - 1601"
    unfolding a_def b_def c_def by (rule div_bounds; simp)+
  moreover have "DayFromYear y = 365 * (y - 1970) + a - b + c"
    by (simp add: DayFromYear_def a_def b_def c_def)
  ultimately have "146097 * (y - 1970) - 506 \<le> 400 * DayFromYear y \<and>
    400 * DayFromYear y \<le> 146097 * (y - 1970) + 589"
    by (simp add: algebra_simps)
  then show "146097 * (y - 1970) - 506 \<le> 400 * DayFromYear y"
    "400 * DayFromYear y \<le> 146097 * (y - 1970) + 589"
    by simp_all
qed

lemma YearFromTime_bounds:
  "DayFromYear (YearFromTime z) \<le> z" "z < DayFromYear (YearFromTime z + 1)"
proof -
  define g where "g = (400 * z) div 146097"
  define y where "y = 1970 + g"
  have g: "400 * z - 146097 + 1 \<le> 146097 * g" "146097 * g \<le> 400 * z"
    unfolding g_def by (rule div_bounds; simp)+
  have lo: "400 * DayFromYear (y - 1) \<le> 146097 * (g - 1) + 589"
    using DayFromYear_approx(2) [of "y - 1"] by (simp add: y_def)
  have hi: "146097 * (g + 2) - 506 \<le> 400 * DayFromYear (y + 1 + 1)"
    using DayFromYear_approx(1) [of "y + 1 + 1"] by (simp add: y_def)
  have lo': "DayFromYear (y - 1) \<le> z" using g lo by (simp add: algebra_simps)
  have hi': "z < DayFromYear (y + 1 + 1)" using g hi by (simp add: algebra_simps)
  have Y: "YearFromTime z =
     (if z < DayFromYear y then y - 1 else if DayFromYear (y + 1) \<le> z then y + 1 else y)"
    by (simp add: YearFromTime_def Let_def y_def g_def)
  show "DayFromYear (YearFromTime z) \<le> z"
    unfolding Y using lo' by (simp split: if_splits)
  show "z < DayFromYear (YearFromTime z + 1)"
    unfolding Y using hi' by (simp split: if_splits)
qed


lemma DayFromYear_mono: "y \<le> y' \<Longrightarrow> DayFromYear y \<le> DayFromYear y'"
proof (induction y' rule: int_ge_induct)
  case base
  then show ?case by simp
next
  case (step i)
  then show ?case
    by (simp add: DayFromYear_Suc DaysInYear_def)
qed

lemma YearFromTime_unique:
  assumes "DayFromYear y \<le> z" "z < DayFromYear (y + 1)"
  shows "YearFromTime z = y"
proof (rule ccontr)
  assume ne: "YearFromTime z \<noteq> y"
  define y' where "y' = YearFromTime z"
  have b: "DayFromYear y' \<le> z" "z < DayFromYear (y' + 1)"
    unfolding y'_def by (rule YearFromTime_bounds)+
  show False
  proof (cases "y' < y")
    case True
    then have "DayFromYear (y' + 1) \<le> DayFromYear y" by (intro DayFromYear_mono) simp
    with b assms show False by simp
  next
    case False
    with ne have "y + 1 \<le> y'" by (simp add: y'_def)
    then have "DayFromYear (y + 1) \<le> DayFromYear y'" by (rule DayFromYear_mono)
    with b assms show False by simp
  qed
qed


lemma month_cases:
  assumes "0 \<le> m" "m \<le> (11::int)"
  obtains "m = 0" | "m = 1" | "m = 2" | "m = 3" | "m = 4" | "m = 5" | "m = 6" | "m = 7"
    | "m = 8" | "m = 9" | "m = 10" | "m = 11"
proof -
  from assms have "m = 0 \<or> m = 1 \<or> m = 2 \<or> m = 3 \<or> m = 4 \<or> m = 5 \<or> m = 6
      \<or> m = 7 \<or> m = 8 \<or> m = 9 \<or> m = 10 \<or> m = 11"
    by presburger
  with that show thesis by blast
qed

lemma DayWithinYear_bounds:
  "0 \<le> DayWithinYear z" "DayWithinYear z < DaysInYear (YearFromTime z)"
  using YearFromTime_bounds [of z]
  by (simp_all add: DayWithinYear_def DayFromYear_Suc)

lemma MonthFromTime_range: "0 \<le> MonthFromTime z" "MonthFromTime z \<le> 11"
  by (simp_all add: MonthFromTime_def Let_def)

lemma DateFromTime_range:
  "1 \<le> DateFromTime z" "DateFromTime z \<le> DaysInMonth (YearFromTime z) (MonthFromTime z)"
  using DayWithinYear_bounds [of z]
  by (auto simp: DateFromTime_def DaysInMonth_def MonthFromTime_def month_start_def
      DaysInYear_def Let_def)

lemma MakeDay_fields:
  "MakeDay (YearFromTime z) (MonthFromTime z) (DateFromTime z + n) = z + n"
proof -
  have "MonthFromTime z div 12 = 0" "MonthFromTime z mod 12 = MonthFromTime z"
    using MonthFromTime_range [of z] by simp_all
  then show ?thesis
    by (simp add: MakeDay_def DateFromTime_def DayWithinYear_def)
qed

lemma fields_MakeDay:
  assumes m: "0 \<le> m" "m \<le> 11" and d: "1 \<le> dt" "dt \<le> DaysInMonth y m"
  shows "YearFromTime (MakeDay y m dt) = y"
    and "MonthFromTime (MakeDay y m dt) = m"
    and "DateFromTime (MakeDay y m dt) = dt"
proof -
  define z where "z = MakeDay y m dt"
  have mm: "m div 12 = 0" "m mod 12 = m" using m by simp_all
  have z: "z = DayFromYear y + month_start (InLeapYear y) m + dt - 1"
    by (simp add: z_def MakeDay_def mm)
  have off1: "0 \<le> month_start (InLeapYear y) m + dt - 1"
    by (rule month_cases [OF m]; use d(1) in \<open>simp add: month_start_def\<close>)
  have off2: "month_start (InLeapYear y) m + dt - 1 < DaysInYear y"
    by (rule month_cases [OF m];
        use d(2) in \<open>simp add: month_start_def DaysInMonth_def DaysInYear_def split: if_splits\<close>)
  note off = off1 off2
  have Y: "YearFromTime z = y"
    by (rule YearFromTime_unique) (use z off in \<open>simp_all add: DayFromYear_Suc\<close>)
  have W: "DayWithinYear z = month_start (InLeapYear y) m + dt - 1"
    unfolding DayWithinYear_def Y by (simp add: z)
  have M: "MonthFromTime z = m"
    unfolding MonthFromTime_def W Y Let_def
    by (rule month_cases [OF m];
        use d in \<open>simp add: month_start_def DaysInMonth_def split: if_splits\<close>)
  show "YearFromTime (MakeDay y m dt) = y" using Y by (simp add: z_def)
  show "MonthFromTime (MakeDay y m dt) = m" using M by (simp add: z_def)
  show "DateFromTime (MakeDay y m dt) = dt"
    unfolding z_def [symmetric] DateFromTime_def W Y M by simp
qed

lemma addDays_LocalDay: "addDays (LocalDay z) n = TimeClip (z + n)"
  by (simp add: addDays_def setDate_def getDate_def num_add_def MakeDay_fields)

section \<open>Date ranges, rollups and streaks\<close>

text \<open>
  \<open>dateRangeInclusive\<close> runs \<open>for (let d = new Date(start); d <= end; d = addDays(d, 1))\<close>.
  Every \<open>new Date()\<close> of the program reads the clock; the reading is the parameter \<open>now\<close>.
  The display labels of the points come from \<open>toLocaleDateString\<close> and are left out.
  A rate is \<open>Math.round((done / possible) * 100)\<close>, or 0 when \<open>possible\<close> is 0.
\<close>

function range_loop :: "jsdate \<Rightarrow> jsdate \<Rightarrow> string list" where
  "range_loop d e = (if date_le d e then toISODate d # range_loop (addDays d 1) e else [])"
  by pat_completeness auto
termination
proof (relation "measure (\<lambda>(d, e). case (d, e) of
          (LocalDay x, LocalDay y) \<Rightarrow> nat (y - x + 1) | _ \<Rightarrow> 0)")
  show "wf (measure (\<lambda>(d, e). case (d, e) of
          (LocalDay x, LocalDay y) \<Rightarrow> nat (y - x + 1) | _ \<Rightarrow> 0))"
    by simp
next
  fix d e
  assume "date_le d e"
  then obtain x y where "d = LocalDay x" "e = LocalDay y" "x \<le> y"
    by (auto simp: date_le_def split: jsdate.splits)
  then show "((addDays d 1, e), (d, e)) \<in> measure (\<lambda>(d, e). case (d, e) of
          (LocalDay x, LocalDay y) \<Rightarrow> nat (y - x + 1) | _ \<Rightarrow> 0)"
    by (simp add: addDays_LocalDay TimeClip_def)
qed

declare range_loop.simps [simp del]

definition dateRangeInclusive :: "string \<Rightarrow> string \<Rightarrow> string list" where
  "dateRangeInclusive startISO endISO =
     range_loop (setHours0 (parseISODate startISO)) (setHours0 (parseISODate endISO))"

definition lastNDays :: "jsdate \<Rightarrow> int \<Rightarrow> string \<times> string" where
  "lastNDays now n = (toISODate (addDays now (- (n - 1))), toISODate now)"

text \<open>
  Numbers are IEEE 754 doubles: the quotient \<open>done / possible\<close> and its product with 100
  are each rounded to the nearest double, ties to the even significand.  \<open>round_double\<close>
  is that rounding on the rationals (a double is an integer multiple of a power of two, the
  integer below \<open>2^53\<close> in absolute value and the power no smaller than \<open>2^-1074\<close>); the
  counts are integers below \<open>2^53\<close> and the results far below the largest double.
  \<open>Math.round\<close> takes the nearest integer, a tie going up.
\<close>

function ilog2 :: "int \<Rightarrow> int" where
  "ilog2 n = (if n < 2 then 0 else ilog2 (n div 2) + 1)"
  by pat_completeness auto
termination
  by (relation "measure nat") auto

declare ilog2.simps [simp del]

definition pow2 :: "int \<Rightarrow> rat" where
  "pow2 k = (if 0 \<le> k then 2 ^ nat k else 1 / 2 ^ nat (- k))"

definition floor_log2 :: "rat \<Rightarrow> int" where
  "floor_log2 x =
     (let e = ilog2 (fst (quotient_of x)) - ilog2 (snd (quotient_of x))
      in if pow2 e \<le> x then e else e - 1)"

definition round_half_even :: "rat \<Rightarrow> int" where
  "round_half_even r =
     (let f = \<lfloor>r\<rfloor>; d = r - of_int f
      in if d < 1 / 2 then f
         else if 1 / 2 < d then f + 1
         else if even f then f else f + 1)"

definition round_double :: "rat \<Rightarrow> rat" where
  "round_double x =
     (if x = 0 then 0
      else let k = max (floor_log2 \<bar>x\<bar> - 52) (- 1074)
           in sgn x * of_int (round_half_even (\<bar>x\<bar> / pow2 k)) * pow2 k)"

definition Math_round :: "rat \<Rightarrow> int" where
  "Math_round r = \<lfloor>r + 1 / 2\<rfloor>"

definition percent :: "nat \<Rightarrow> nat \<Rightarrow> int" where
  "percent done possible =
     (if possible \<noteq> 0
      then Math_round (round_double (round_double (of_nat done / of_nat possible) * 100))
      else 0)"

record daily_point =
  dateISO :: string
  completed :: nat
  total :: nat
  rate :: int

record weekly_point =
  weekStartISO :: string
  completedTotal :: nat
  totalPossible :: nat
  rate :: int
  perHabit :: "(string, nat) fmap"

record monthly_point =
  monthISO :: string
  completedTotal :: nat
  totalPossible :: nat
  rate :: int
  daysInMonth :: nat
  perHabit :: "(string, nat) fmap"

record day_summary =
  total :: nat
  completed :: nat
  remaining :: nat
  rate :: int

definition completedCount :: "completions \<Rightarrow> habit list \<Rightarrow> string \<Rightarrow> nat" where
  "completedCount c act isoStr =
     fold (\<lambda>h acc. acc + (if isCompleted c isoStr (hid h) then 1 else 0)) act 0"

definition rollupDaily :: "habit list \<Rightarrow> completions \<Rightarrow> string \<Rightarrow> string \<Rightarrow> daily_point list" where
  "rollupDaily hs c startISO endISO =
     (let act = getActiveHabits hs;
          days = dateRangeInclusive startISO endISO
      in map (\<lambda>isoStr.
           \<lparr> dateISO = isoStr,
             daily_point.completed = completedCount c act isoStr,
             daily_point.total = length act,
             daily_point.rate = percent (completedCount c act isoStr) (length act) \<rparr>) days)"

text \<open>
  \<open>perHabit[h.id] = 0\<close> is an assignment: for the id \<open>__proto__\<close> it calls the inherited
  setter, which ignores a number, and adds no member; \<open>perHabit[h.id] += 1\<close> then changes
  nothing either.
\<close>

definition perHabit_init :: "habit list \<Rightarrow> (string, nat) fmap" where
  "perHabit_init act =
     fold (\<lambda>h m. if hid h = ''__proto__'' then m else fmupd (hid h) 0 m) act fmempty"

definition perHabit_bump :: "completions \<Rightarrow> string \<Rightarrow> habit \<Rightarrow> (string, nat) fmap \<Rightarrow> (string, nat) fmap" where
  "perHabit_bump c dISO h m =
     (if isCompleted c dISO (hid h)
      then (case fmlookup m (hid h) of Some v \<Rightarrow> fmupd (hid h) (v + 1) m | None \<Rightarrow> m)
      else m)"

definition perHabit_count :: "completions \<Rightarrow> habit list \<Rightarrow> string list \<Rightarrow> (string, nat) fmap" where
  "perHabit_count c act days =
     fold (\<lambda>dISO m. fold (perHabit_bump c dISO) act m) days (perHabit_init act)"

definition sum_values :: "(string, nat) fmap \<Rightarrow> nat" where
  "sum_values m = fold (\<lambda>b a. a + b) (map snd (sorted_list_of_fmap m)) 0"

definition week_days :: "int \<Rightarrow> jsdate \<Rightarrow> int \<Rightarrow> string \<times> string list" where
  "week_days wso now i =
     (let thisWeekStart = startOfWeek now wso;
          ws = addDays thisWeekStart (- 7 * i);
          we = addDays ws 6;
          wsISO = toISODate ws;
          weISO = toISODate we
      in (wsISO, dateRangeInclusive wsISO weISO))"

definition weekly_point_at :: "habit list \<Rightarrow> completions \<Rightarrow> int \<Rightarrow> jsdate \<Rightarrow> int \<Rightarrow> weekly_point" where
  "weekly_point_at hs c wso now i =
     (let act = getActiveHabits hs;
          wsISO = fst (week_days wso now i);
          days = snd (week_days wso now i);
          per = perHabit_count c act days;
          ct = sum_values per;
          tp = length act * 7
      in \<lparr> weekStartISO = wsISO, weekly_point.completedTotal = ct,
           weekly_point.totalPossible = tp, weekly_point.rate = percent ct tp,
           weekly_point.perHabit = per \<rparr>)"

function weekly_loop :: "habit list \<Rightarrow> completions \<Rightarrow> int \<Rightarrow> jsdate \<Rightarrow> int \<Rightarrow> weekly_point list" where
  "weekly_loop hs c wso now i =
     (if 0 \<le> i then weekly_point_at hs c wso now i # weekly_loop hs c wso now (i - 1) else [])"
  by pat_completeness auto
termination
  by (relation "measure (\<lambda>(hs, c, wso, now, i). nat (i + 1))") auto

declare weekly_loop.simps [simp del]

definition rollupWeekly :: "habit list \<Rightarrow> completions \<Rightarrow> int \<Rightarrow> int \<Rightarrow> jsdate \<Rightarrow> weekly_point list" where
  "rollupWeekly hs c weeksBack wso now = weekly_loop hs c wso now (weeksBack - 1)"

definition month_days :: "jsdate \<Rightarrow> int \<Rightarrow> string \<times> string list" where
  "month_days now i =
     (let cur = startOfMonth now;
          mStart = setHours0 (setDate (setMonth cur (num_add (getMonth cur) (- i))) (Some 1));
          nextStart = setMonth mStart (num_add (getMonth mStart) 1);
          startISO = toISODate mStart;
          endISO = toISODate (addDays nextStart (- 1))
      in (startISO, dateRangeInclusive startISO endISO))"

definition monthly_point_at :: "habit list \<Rightarrow> completions \<Rightarrow> jsdate \<Rightarrow> int \<Rightarrow> monthly_point" where
  "monthly_point_at hs c now i =
     (let act = getActiveHabits hs;
          startISO = fst (month_days now i);
          days = snd (month_days now i);
          per = perHabit_count c act days;
          ct = sum_values per;
          tp = length act * length days
      in \<lparr> monthISO = startISO, monthly_point.completedTotal = ct,
           monthly_point.totalPossible = tp, monthly_point.rate = percent ct tp,
           daysInMonth = length days, monthly_point.perHabit = per \<rparr>)"

function monthly_loop :: "habit list \<Rightarrow> completions \<Rightarrow> jsdate \<Rightarrow> int \<Rightarrow> monthly_point list" where
  "monthly_loop hs c now i =
     (if 0 \<le> i then monthly_point_at hs c now i # monthly_loop hs c now (i - 1) else [])"
  by pat_completeness auto
termination
  by (relation "measure (\<lambda>(hs, c, now, i). nat (i + 1))") auto

declare monthly_loop.simps [simp del]

definition rollupMonthly :: "habit list \<Rightarrow> completions \<Rightarrow> int \<Rightarrow> jsdate \<Rightarrow> monthly_point list" where
  "rollupMonthly hs c monthsBack now = monthly_loop hs c now (monthsBack - 1)"

function streak_loop :: "completions \<Rightarrow> string \<Rightarrow> string \<Rightarrow> int \<Rightarrow> nat \<Rightarrow> nat" where
  "streak_loop c habitId todayISO i streak =
     (if i < 3650 then
        (if isCompleted c (toISODate (addDays (parseISODate todayISO) (- i))) habitId
         then streak_loop c habitId todayISO (i + 1) (streak + 1)
         else streak)
      else streak)"
  by pat_completeness auto
termination
  by (relation "measure (\<lambda>(c, habitId, todayISO, i, streak). nat (3650 - i))") auto

declare streak_loop.simps [simp del]

definition computeStreak :: "string \<Rightarrow> completions \<Rightarrow> jsdate \<Rightarrow> nat" where
  "computeStreak habitId c now = streak_loop c habitId (toISODate now) 0 0"

record streak_state =
  best :: nat
  cur :: nat
  prev :: "string option"

definition best_step :: "completions \<Rightarrow> string \<Rightarrow> string \<Rightarrow> streak_state \<Rightarrow> streak_state" where
  "best_step c habitId isoStr s =
     (if \<not> isCompleted c isoStr habitId then s
      else
        let cur' = (case prev s of
                      None \<Rightarrow> 1
                    | Some p \<Rightarrow>
                        if p = [] then 1
                        else if isoStr = toISODate (addDays (parseISODate p) 1)
                          then cur s + 1 else 1)
        in \<lparr> best = max (best s) cur', cur = cur', prev = Some isoStr \<rparr>)"

definition computeBestStreak :: "string \<Rightarrow> completions \<Rightarrow> nat" where
  "computeBestStreak habitId c =
     best (fold (best_step c habitId) (sorted_list_of_fset (fmdom c))
       \<lparr> best = 0, cur = 0, prev = None \<rparr>)"

definition completionRateForHabit :: "string \<Rightarrow> completions \<Rightarrow> string \<Rightarrow> string \<Rightarrow> int" where
  "completionRateForHabit habitId c startISO endISO =
     (let days = dateRangeInclusive startISO endISO;
          dn = fold (\<lambda>isoStr acc. acc + (if isCompleted c isoStr habitId then 1 else 0)) days 0
      in percent dn (length days))"

definition getTodaySummary :: "habit list \<Rightarrow> completions \<Rightarrow> string \<Rightarrow> day_summary" where
  "getTodaySummary hs c isoStr =
     (let act = getActiveHabits hs;
          cmp = filter (\<lambda>h. isCompleted c isoStr (hid h)) act
      in \<lparr> day_summary.total = length act, day_summary.completed = length cmp,
           remaining = length act - length cmp,
           day_summary.rate = percent (length cmp) (length act) \<rparr>)"

section \<open>Properties of the accessors\<close>

lemma fmdom_empty_iff: "fmdom m = {||} \<longleftrightarrow> m = fmempty"
proof
  assume "fmdom m = {||}"
  then have "fmlookup m x = None" for x
    by (metis fmdom_notD fempty_iff)
  then show "m = fmempty"
    by (intro fmap_ext) simp
qed simp

lemma nonempty_days_iff:
  "nonempty_days c \<longleftrightarrow>
     (\<forall>d day. fmlookup c d = Some day \<longrightarrow>
        day \<noteq> fmempty \<and> (\<forall>h v. fmlookup day h = Some v \<longrightarrow> v))"
  by (auto simp: nonempty_days_def fmpred_iff fmdom_empty_iff)

lemma distinct_keys_sorted_list_of_fmap: "distinct (map fst (sorted_list_of_fmap m))"
  by (simp add: sorted_list_of_fmap_def comp_def sorted_list_of_fset.rep_eq)

lemma deleteHabit_fold_lookup:
  "distinct (map fst xs) \<Longrightarrow>
   fmlookup (fold (deleteHabit_step h) xs acc) d =
     (case map_of xs d of
        None \<Rightarrow> fmlookup acc d
      | Some day \<Rightarrow> if fmdrop h day = fmempty \<or> d = ''__proto__''
                    then fmlookup acc d else Some (fmdrop h day))"
proof (induction xs arbitrary: acc)
  case Nil
  then show ?case by simp
next
  case (Cons e xs)
  obtain k v where e: "e = (k, v)" by (cases e)
  from Cons.prems have nk: "k \<notin> fst ` set xs" and dx: "distinct (map fst xs)"
    by (auto simp: e)
  from nk have none: "map_of xs k = None"
    by (simp add: map_of_eq_None_iff)
  show ?case
    using Cons.IH [OF dx] none
    by (auto simp: e deleteHabit_step_def fmdom_empty_iff Let_def split: option.splits)
qed

lemma deleteHabit_completions_lookup:
  "fmlookup (deleteHabit_completions h c) d =
     (case fmlookup c d of
        None \<Rightarrow> None
      | Some day \<Rightarrow> if fmdrop h day = fmempty \<or> d = ''__proto__''
                    then None else Some (fmdrop h day))"
  unfolding deleteHabit_completions_def
  by (simp add: deleteHabit_fold_lookup [OF distinct_keys_sorted_list_of_fmap] split: option.splits)

lemma toggleCompletion_lookup:
  "fmlookup (toggleCompletion c d h) d' =
     (if d' \<noteq> d then fmlookup c d'
      else let day0 = (case fmlookup c d of None \<Rightarrow> fmempty | Some x \<Rightarrow> x);
               day = (if day_member day0 h then fmdrop h day0 else fmupd h True day0)
           in if day = fmempty then None else Some day)"
  by (auto simp: toggleCompletion_def Let_def fmdom_empty_iff)

lemma nonempty_days_toggleCompletion:
  "nonempty_days c \<Longrightarrow> nonempty_days (toggleCompletion c d h)"
  unfolding nonempty_days_iff toggleCompletion_lookup
  by (auto simp: Let_def split: if_splits option.splits)

lemma nonempty_days_deleteHabit:
  "nonempty_days c \<Longrightarrow> nonempty_days (deleteHabit_completions h c)"
  unfolding nonempty_days_iff deleteHabit_completions_lookup
  by (auto split: if_splits option.splits)


text \<open>
  C1.  Whenever every day object of the log is a non-empty set of habit ids, the log
  returned by \<open>toggleCompletion\<close> (any date key, any habit id) and the log left by
  \<open>deleteHabit\<close> (any habit id) again have only non-empty sets under the date keys present.
\<close>

theorem C1_nonempty_days_preserved:
  assumes "nonempty_days (completions st)"
  shows "nonempty_days (toggleCompletion (completions st) d h)
       \<and> nonempty_days (completions (deleteHabit h' st))"
  using assms
  by (simp add: nonempty_days_toggleCompletion nonempty_days_deleteHabit deleteHabit_def)

theorem C1_nonempty_days_preserved_witness:
  "nonempty_days (fmupd ''2024-03-01'' (fmupd ''a'' True fmempty) fmempty)
   \<and> nonempty_days (toggleCompletion
        (fmupd ''2024-03-01'' (fmupd ''a'' True fmempty) fmempty) ''2024-03-01'' ''a'')
   \<and> nonempty_days (completions (deleteHabit ''a''
        \<lparr> weekStartsOn = 1, habits = [],
          completions = fmupd ''2024-03-01'' (fmupd ''a'' True fmempty) fmempty \<rparr>))"
proof -
  have wf: "nonempty_days (fmupd ''2024-03-01'' (fmupd ''a'' True fmempty) fmempty)"
    by (auto simp: nonempty_days_def)
  show ?thesis
    using wf
      C1_nonempty_days_preserved [of
        "\<lparr> weekStartsOn = 1, habits = [],
           completions = fmupd ''2024-03-01'' (fmupd ''a'' True fmempty) fmempty \<rparr>"
        "''2024-03-01''" "''a''" "''a''"]
    by simp
qed

lemma day_member_own: "fmlookup day h = Some v \<Longrightarrow> day_member day h = v"
  by (simp add: day_member_def)

lemma day_member_inherited:
  "fmlookup day h = None \<Longrightarrow> day_member day h \<longleftrightarrow> h \<in> set Object_prototype_names"
  by (simp add: day_member_def)

text \<open>
  C2 (as stated: for every log, date key and habit id, toggling twice gives back the log).
  \<open>if (day[h])\<close> reads through the prototype.  On the log whose day 2024-03-01 holds
  the one id \<open>constructor\<close>, the first toggle deletes the id and with it the day; the second
  toggle finds \<open>day.constructor\<close> truthy again, now the inherited function, deletes nothing
  and drops the empty day.  Both results are the empty log.
\<close>

theorem C2_counterexample:
  "nonempty_days (fmupd ''2024-03-01'' (fmupd ''constructor'' True fmempty) fmempty)
   \<and> toggleCompletion
        (fmupd ''2024-03-01'' (fmupd ''constructor'' True fmempty) fmempty)
        ''2024-03-01'' ''constructor'' = fmempty
   \<and> toggleCompletion fmempty ''2024-03-01'' ''constructor'' = fmempty
   \<and> toggleCompletion
        (toggleCompletion
           (fmupd ''2024-03-01'' (fmupd ''constructor'' True fmempty) fmempty)
           ''2024-03-01'' ''constructor'')
        ''2024-03-01'' ''constructor''
      \<noteq> fmupd ''2024-03-01'' (fmupd ''constructor'' True fmempty) fmempty"
proof -
  have a: "toggleCompletion
        (fmupd ''2024-03-01'' (fmupd ''constructor'' True fmempty) fmempty)
        ''2024-03-01'' ''constructor'' = fmempty"
    by (simp add: toggleCompletion_def day_member_def Let_def fmdrop_fmupd_same)
  have b: "toggleCompletion fmempty ''2024-03-01'' ''constructor'' = fmempty"
    by (simp add: toggleCompletion_def day_member_def Let_def Object_prototype_names_def
        fmdrop_fmupd_same)
  have c: "fmupd ''2024-03-01'' (fmupd ''constructor'' True fmempty) fmempty \<noteq> fmempty"
    by (metis fmdom_empty_iff fmdom_fmupd finsert_not_fempty)
  have wf: "nonempty_days (fmupd ''2024-03-01'' (fmupd ''constructor'' True fmempty) fmempty)"
    by (auto simp: nonempty_days_def)
  show ?thesis using wf c by (simp add: a b)
qed

text \<open>
  C2 (amended).  On a log whose day objects are non-empty sets of habit ids, toggling the
  same habit on the same date twice gives back the log (the two maps from date keys to day
  objects are equal), provided the habit id is not the name of a member inherited from
  \<open>Object.prototype\<close>, or the day of the given date does not hold that id.
\<close>

theorem C2_toggle_twice:
  assumes wf: "nonempty_days c"
    and own: "h \<notin> set Object_prototype_names \<or> \<not> holds_key c d h"
  shows "toggleCompletion (toggleCompletion c d h) d h = c"
proof (rule fmap_ext)
  fix d'
  let ?d = d and ?h = h
  show "fmlookup (toggleCompletion (toggleCompletion c ?d ?h) ?d ?h) d' = fmlookup c d'"
  proof (cases "d' = ?d")
    case False
    then show ?thesis by (simp add: toggleCompletion_lookup)
  next
    case True
    show ?thesis
    proof (cases "fmlookup c ?d")
      case None
      show ?thesis
      proof (cases "?h \<in> set Object_prototype_names")
        case True
        then have "day_member fmempty ?h" by (simp add: day_member_def)
        then show ?thesis
          using None by (simp add: \<open>d' = ?d\<close> toggleCompletion_lookup Let_def)
      next
        case False
        then have "\<not> day_member fmempty ?h" by (simp add: day_member_def)
        moreover have "day_member (fmupd ?h True fmempty) ?h" by (simp add: day_member_def)
        ultimately show ?thesis
          using None by (simp add: \<open>d' = ?d\<close> toggleCompletion_lookup Let_def fmdrop_fmupd_same)
      qed
    next
      case (Some day)
      with wf have ne: "day \<noteq> fmempty" and tr: "\<And>k v. fmlookup day k = Some v \<Longrightarrow> v"
        by (auto simp: nonempty_days_iff)
      show ?thesis
      proof (cases "fmlookup day ?h")
        case None
        have same: "fmdrop ?h day = day"
          by (rule fmap_ext) (use None in auto)
        show ?thesis
        proof (cases "?h \<in> set Object_prototype_names")
          case True
          then have "day_member day ?h" using None by (simp add: day_member_def)
          then show ?thesis
            using Some ne same by (simp add: \<open>d' = ?d\<close> toggleCompletion_lookup Let_def)
        next
          case False
          then have "\<not> day_member day ?h" using None by (simp add: day_member_def)
          moreover have "day_member (fmupd ?h True day) ?h" by (simp add: day_member_def)
          moreover have "fmdrop ?h (fmupd ?h True day) = day"
            by (rule fmap_ext) (use None in auto)
          ultimately show ?thesis
            using Some ne by (simp add: \<open>d' = ?d\<close> toggleCompletion_lookup Let_def)
        qed
      next
        case (Some v)
        then have v: "fmlookup day ?h = Some True" using tr by auto
        then have "holds_key c ?d ?h"
          using \<open>fmlookup c ?d = Some day\<close> by (auto simp: holds_key_def intro: fmdomI)
        with own have notin: "?h \<notin> set Object_prototype_names" by simp
        have m: "day_member day ?h" using v by (simp add: day_member_def)
        have nm: "\<not> day_member (fmdrop ?h day) ?h" using notin by (simp add: day_member_def)
        have upd_drop: "fmupd ?h True (fmdrop ?h day) = day"
          by (rule fmap_ext) (use v in auto)
        have e: "fmdrop ?h day = fmempty \<Longrightarrow> fmupd ?h True fmempty = day"
          using upd_drop by simp
        have ne': "\<not> day_member fmempty ?h" using notin by (simp add: day_member_def)
        show ?thesis
          using m nm ne' \<open>fmlookup c ?d = Some day\<close> ne upd_drop e
          by (auto simp: \<open>d' = ?d\<close> toggleCompletion_lookup Let_def)
      qed
    qed
  qed
qed

theorem C2_toggle_twice_witness:
  "nonempty_days (fmupd ''2024-03-01'' (fmupd ''a'' True fmempty) fmempty)
   \<and> ''a'' \<notin> set Object_prototype_names
   \<and> toggleCompletion
        (toggleCompletion (fmupd ''2024-03-01'' (fmupd ''a'' True fmempty) fmempty)
           ''2024-03-01'' ''a'')
        ''2024-03-01'' ''a''
      = fmupd ''2024-03-01'' (fmupd ''a'' True fmempty) fmempty"
proof -
  have wf: "nonempty_days (fmupd ''2024-03-01'' (fmupd ''a'' True fmempty) fmempty)"
    by (auto simp: nonempty_days_def)
  have n: "''a'' \<notin> set Object_prototype_names" by (simp add: Object_prototype_names_def)
  show ?thesis
    using wf n C2_toggle_twice [OF wf, of "''a''" "''2024-03-01''"] by simp
qed


















section \<open>Date keys\<close>

lemma digit_cases:
  assumes "(d::nat) < 10"
  obtains "d = 0" | "d = 1" | "d = 2" | "d = 3" | "d = 4" | "d = 5" | "d = 6" | "d = 7"
    | "d = 8" | "d = 9"
proof -
  from assms have "d = 0 \<or> d = 1 \<or> d = 2 \<or> d = 3 \<or> d = 4 \<or> d = 5 \<or> d = 6 \<or> d = 7
      \<or> d = 8 \<or> d = 9"
    by arith
  with that show thesis by blast
qed

lemma is_digit_char_of: "d < 10 \<Longrightarrow> is_digit (digit_char d)"
  by (erule digit_cases) (simp_all add: digit_char_def is_digit_def)

lemma digit_val_char_of: "d < 10 \<Longrightarrow> digit_val (digit_char d) = int d"
  by (erule digit_cases) (simp_all add: digit_char_def digit_val_def)

lemma radix_val_snoc: "radix_val b (s @ [c]) = b * radix_val b s + digit_val c"
  by (simp add: radix_val_def)

lemma decimal_all_digits: "list_all is_digit (decimal n)"
  by (induction n rule: decimal.induct) (subst decimal.simps, simp add: is_digit_char_of)

lemma decimal_nonempty: "decimal n \<noteq> []"
  by (subst decimal.simps) simp

lemma digits_decimal: "digits (decimal n)"
  by (simp add: digits_def decimal_all_digits decimal_nonempty)

lemma radix_val_decimal: "radix_val 10 (decimal n) = int n"
proof (induction n rule: decimal.induct)
  case (1 n)
  have split: "10 * int (n div 10) + int (n mod 10) = int n"
    by (simp add: zdiv_int zmod_int)
  show ?case
  proof (cases "10 \<le> n")
    case True
    with 1 have "radix_val 10 (decimal (n div 10)) = int (n div 10)" by simp
    with True split show ?thesis
      by (subst decimal.simps) (simp add: radix_val_snoc digit_val_char_of)
  next
    case False
    then show ?thesis
      by (subst decimal.simps) (simp add: radix_val_def digit_val_char_of)
  qed
qed

lemma length_decimal:
  "n < 10 \<Longrightarrow> length (decimal n) = 1"
  "10 \<le> n \<Longrightarrow> 2 \<le> length (decimal n)"
proof -
  show "n < 10 \<Longrightarrow> length (decimal n) = 1"
    by (subst decimal.simps) simp
  assume "10 \<le> n"
  then show "2 \<le> length (decimal n)"
    using decimal_nonempty [of "n div 10"]
    by (subst decimal.simps) (cases "decimal (n div 10)"; simp)
qed

lemma digits_padStart2: "digits s \<Longrightarrow> digits (padStart2 s)"
  by (auto simp: digits_def padStart2_def is_digit_def list_all_iff)

lemma radix_val_replicate_0: "radix_val 10 (replicate k CHR ''0'' @ s) = radix_val 10 s"
  by (induction k) (simp_all add: radix_val_def digit_val_def)

lemma radix_val_padStart2: "radix_val 10 (padStart2 s) = radix_val 10 s"
  by (simp add: padStart2_def radix_val_replicate_0)

lemma digit_not_ws: "is_digit c \<Longrightarrow> \<not> is_ws c"
  by (auto simp: is_digit_def is_ws_def)

lemma digit_not_special:
  assumes "is_digit c"
  shows "c \<noteq> CHR ''-''" "c \<noteq> CHR ''+''" "c \<noteq> CHR ''.''" "c \<noteq> CHR ''I''"
  using assms by (auto simp: is_digit_def)

lemma trim_digits: "digits s \<Longrightarrow> trim s = s"
proof -
  assume d: "digits s"
  then have ne: "s \<noteq> []" by (simp add: digits_def)
  from d have "\<not> is_ws (hd s)" "\<not> is_ws (last s)"
    by (auto simp: digits_def list_all_iff digit_not_ws)
  moreover have "hd (rev s) = last s" using ne by (simp add: hd_rev)
  ultimately have "dropWhile is_ws s = s" "dropWhile is_ws (rev s) = rev s"
    by (simp_all add: dropWhile_eq_self_iff)
  then show ?thesis by (simp add: trim_def)
qed

lemma radix_base_Some: "radix_base c = Some b \<Longrightarrow> c \<in> set ''xXoObB''"
  by (simp add: radix_base_def split: if_splits) blast+

lemma radix_letters_not_digit: "c \<in> set ''xXoObB'' \<Longrightarrow> \<not> is_digit c"
  by (auto simp: is_digit_def)

lemma radix_base_digit: "is_digit c \<Longrightarrow> radix_base c = None"
  using radix_base_Some radix_letters_not_digit by (cases "radix_base c") blast+

lemma radix_literal_digits: "digits s \<Longrightarrow> radix_literal s = None"
  by (auto simp: radix_literal_def digits_def radix_base_digit split: list.splits)

lemma unsigned_decimal_digits:
  assumes "digits s"
  shows "unsigned_decimal s = Fin (of_int (radix_val 10 s))"
proof -
  from assms have all: "\<forall>x\<in>set s. is_digit x" and ne: "s \<noteq> []"
    by (auto simp: digits_def list_all_iff)
  then have "is_digit (hd s)" by simp
  then have "hd s \<noteq> CHR ''I''" by (rule digit_not_special)
  then have inf: "s \<noteq> ''Infinity''" by auto
  have tw: "takeWhile is_digit s = s" "dropWhile is_digit s = []"
    using all by simp_all
  show ?thesis
    using inf ne by (simp add: unsigned_decimal_def tw exponent_part_def pow10_def)
qed

lemma Number_digits: "digits s \<Longrightarrow> Number s = Fin (of_int (radix_val 10 s))"
proof -
  assume d: "digits s"
  then have "s \<noteq> []" "is_digit (hd s)" by (auto simp: digits_def list_all_iff)
  then have "hd s \<noteq> CHR ''+''" "hd s \<noteq> CHR ''-''" by (auto dest: digit_not_special)
  with d \<open>s \<noteq> []\<close> show ?thesis
    by (simp add: Number_def trim_digits radix_literal_digits unsigned_decimal_digits)
qed

lemma split_on_no_sep: "sep \<notin> set s \<Longrightarrow> split_on sep s = [s]"
  by (induction s) auto

lemma split_on_append:
  "sep \<notin> set a \<Longrightarrow> split_on sep (a @ sep # r) = a # split_on sep r"
  by (induction a) auto

lemma digits_no_dash: "digits s \<Longrightarrow> CHR ''-'' \<notin> set s"
  by (auto simp: digits_def list_all_iff dest: digit_not_special(1))

lemma trunc_of_int [simp]: "trunc (of_int i) = i"
  by (simp add: trunc_def)

lemma trunc_of_nat [simp]: "trunc (of_nat n) = int n"
  by (simp add: trunc_def)

lemma Number_decimal: "Number (decimal n) = Fin (of_nat n)"
  by (simp add: Number_digits digits_decimal radix_val_decimal)

lemma Number_pad2_nat: "Number (padStart2 (decimal n)) = Fin (of_nat n)"
  by (simp add: Number_digits digits_padStart2 digits_decimal radix_val_padStart2
      radix_val_decimal)

lemma split_on_key:
  assumes "CHR ''-'' \<notin> set a" "CHR ''-'' \<notin> set b" "CHR ''-'' \<notin> set c"
  shows "split_on CHR ''-'' (a @ ''-'' @ b @ ''-'' @ c) = [a, b, c]"
  using assms by (simp add: split_on_append split_on_no_sep)

lemma toISODate_LocalDay:
  "toISODate (LocalDay z) =
     String_int (YearFromTime z) @ ''-'' @ padStart2 (String_int (MonthFromTime z + 1)) @ ''-''
       @ padStart2 (String_int (DateFromTime z))"
  by (simp add: toISODate_def getFullYear_def getMonth_def getDate_def pad2_def String_num_def
      num_add_def)

lemma String_int_nonneg: "0 \<le> i \<Longrightarrow> String_int i = decimal (nat i)"
  by (simp add: String_int_def)

lemma parse_key_nonneg:
  assumes y: "0 \<le> y" and m: "0 \<le> m" and d: "0 \<le> d"
  shows "parseISODate (String_int y @ ''-'' @ padStart2 (String_int (m + 1)) @ ''-''
           @ padStart2 (String_int d))
         = TimeClip (MakeDay (if y \<le> 99 then 1900 + y else y) m d)"
proof -
  let ?a = "decimal (nat y)" and ?b = "padStart2 (decimal (nat (m + 1)))"
    and ?c = "padStart2 (decimal (nat d))"
  have nd: "CHR ''-'' \<notin> set ?a" "CHR ''-'' \<notin> set ?b" "CHR ''-'' \<notin> set ?c"
    by (intro digits_no_dash digits_padStart2 digits_decimal)+
  have sp: "split_on CHR ''-'' (?a @ ''-'' @ ?b @ ''-'' @ ?c) = [?a, ?b, ?c]"
    by (rule split_on_key [OF nd])
  show ?thesis
    using y m d
    by (simp add: parseISODate_def String_int_nonneg sp nth_num_def Number_decimal
        Number_pad2_nat Date_ymd_def finite_int_def num_sub_def Let_def del: append.simps)
qed

lemma parseISODate_toISODate:
  assumes "0 \<le> YearFromTime z"
  shows "parseISODate (toISODate (LocalDay z)) =
           TimeClip (if YearFromTime z \<le> 99
                     then MakeDay (1900 + YearFromTime z) (MonthFromTime z) (DateFromTime z)
                     else z)"
proof -
  have "0 \<le> MonthFromTime z" "0 \<le> DateFromTime z"
    using MonthFromTime_range(1) [of z] DateFromTime_range(1) [of z] by simp_all
  with assms show ?thesis
    using MakeDay_fields [of z 0]
    by (simp add: toISODate_LocalDay parse_key_nonneg del: append.simps)
qed

lemma parseISODate_roundtrip:
  assumes "100 \<le> YearFromTime z" "\<bar>z\<bar> \<le> 100000000"
  shows "parseISODate (toISODate (LocalDay z)) = LocalDay z"
  using assms by (simp add: parseISODate_toISODate TimeClip_def)

text \<open>Rewrite rules that evaluate the key of a given day and the date of a given key.\<close>

lemmas key_eval = toISODate_LocalDay YearFromTime_def DayFromYear_def MonthFromTime_def
  DayWithinYear_def DateFromTime_def InLeapYear_def month_start_def String_int_def
  decimal.simps digit_char_def padStart2_def

lemma Number_empty: "Number [] = Fin 0"
  by (simp add: Number_def trim_def)

lemma trunc_numeral [simp]: "trunc (numeral n) = numeral n" "trunc 0 = 0" "trunc 1 = 1"
  by (simp_all add: trunc_def)

lemma split_on_nonempty: "split_on sep s \<noteq> []"
  by (induction s) (auto split: list.splits)

lemma split_on_append_general:
  "split_on sep (a @ sep # r) = split_on sep a @ split_on sep r"
proof (induction a)
  case Nil
  then show ?case by simp
next
  case (Cons c a)
  then show ?case
    using split_on_nonempty [of sep a]
    by (cases "split_on sep a") auto
qed

lemma finite_int_NaN: "finite_int NaN = None"
  by (simp add: finite_int_def)

lemma finite_int_num_sub: "finite_int (num_sub v k) = None \<longleftrightarrow> finite_int v = None"
  by (cases v) (simp_all add: finite_int_def num_sub_def)

lemma Date_ymd_nonfinite:
  "finite_int y = None \<or> finite_int m = None \<or> finite_int d = None
     \<Longrightarrow> Date_ymd y m d = InvalidDate"
  by (auto simp: Date_ymd_def split: option.splits)


lemma parseISODate_split:
  "parseISODate s =
     (case split_on CHR ''-'' s of
        y # m # d # _ \<Rightarrow> Date_ymd (Number y) (num_sub (Number m) 1) (Number d)
      | _ \<Rightarrow> InvalidDate)"
proof (cases "split_on CHR ''-'' s")
  case Nil
  then show ?thesis by (simp add: split_on_nonempty)
next
  case c1: (Cons y r1)
  show ?thesis
  proof (cases r1)
    case Nil
    with c1 show ?thesis
      by (simp add: parseISODate_def nth_num_def Let_def Date_ymd_nonfinite finite_int_NaN)
  next
    case c2: (Cons m r2)
    show ?thesis
    proof (cases r2)
      case Nil
      with c1 c2 show ?thesis
        by (simp add: parseISODate_def nth_num_def Let_def Date_ymd_nonfinite finite_int_NaN)
    next
      case (Cons d r3)
      with c1 c2 show ?thesis
        by (simp add: parseISODate_def nth_num_def)
    qed
  qed
qed

lemmas parse_eval = parseISODate_split Number_digits Number_empty digits_def is_digit_def
  radix_val_def digit_val_def Date_ymd_def finite_int_def num_sub_def TimeClip_def MakeDay_def
  DayFromYear_def month_start_def InLeapYear_def

text \<open>
  C3 (as stated: for every calendar date, parsing the formatted key gives the same day).
  The year is printed without padding and \<open>new Date(y, m, d)\<close> reads a year from 0 to 99
  as 1900 + y, so the key of 15 June of the year 50 is \<open>50-06-15\<close> and parses as
  15 June 1950.
\<close>

lemma fields_50: "YearFromTime (- 701100) = 50" "MonthFromTime (- 701100) = 5"
  "DateFromTime (- 701100) = 15"
  by (simp_all add: key_eval)

lemma c3a: "toISODate (LocalDay (- 701100)) = ''50-06-15''"
  by (simp add: key_eval)

lemma c3b: "toISODate (LocalDay (- 7140)) = ''1950-06-15''"
  by (simp add: key_eval)

lemma c3c: "MakeDay 1950 5 15 = - 7140"
  by (simp add: MakeDay_def DayFromYear_def month_start_def InLeapYear_def)

theorem C3_counterexample:
  "parseISODate (toISODate (LocalDay (- 701100))) = LocalDay (- 7140)
   \<and> parseISODate (toISODate (LocalDay (- 701100))) \<noteq> LocalDay (- 701100)
   \<and> toISODate (LocalDay (- 701100)) = ''50-06-15''
   \<and> toISODate (LocalDay (- 7140)) = ''1950-06-15''"
  using parseISODate_toISODate [of "- 701100"]
  by (simp add: fields_50 c3a c3b c3c TimeClip_def)


text \<open>
  C3 (amended).  For every date of the year 100 or later within the range of \<open>Date\<close>,
  \<open>parseISODate (toISODate d)\<close> is the same calendar day as \<open>d\<close>.
\<close>

theorem C3_roundtrip_from_year_100:
  assumes "100 \<le> YearFromTime z" "\<bar>z\<bar> \<le> 100000000"
  shows "parseISODate (toISODate (LocalDay z)) = LocalDay z"
  using assms by (rule parseISODate_roundtrip)

lemma year_19800: "YearFromTime 19800 = 2024"
  by (simp add: key_eval)

lemma key_19800: "toISODate (LocalDay 19800) = ''2024-03-18''"
  by (simp add: key_eval)

theorem C3_roundtrip_from_year_100_witness:
  "100 \<le> YearFromTime 19800 \<and> \<bar>19800 :: int\<bar> \<le> 100000000
   \<and> toISODate (LocalDay 19800) = ''2024-03-18''
   \<and> parseISODate ''2024-03-18'' = LocalDay 19800"
  using C3_roundtrip_from_year_100 [of 19800] by (simp add: year_19800 key_19800)

section \<open>Malformed date keys\<close>

text \<open>
  The shape the specification names: exactly three components separated by \<open>-\<close>, each a
  non-empty string of decimal digits.  \<open>three_numbers\<close> is what the code needs instead: at
  least three components, the first three of which \<open>Number\<close> converts to finite numbers.
\<close>

definition spec_date_key_pattern :: "string \<Rightarrow> bool" where
  "spec_date_key_pattern s =
     (case split_on CHR ''-'' s of
        [y, m, d] \<Rightarrow> digits y \<and> digits m \<and> digits d
      | _ \<Rightarrow> False)"

definition three_numbers :: "string \<Rightarrow> bool" where
  "three_numbers s =
     (case split_on CHR ''-'' s of
        y # m # d # _ \<Rightarrow>
          finite_int (Number y) \<noteq> None \<and> finite_int (Number m) \<noteq> None
            \<and> finite_int (Number d) \<noteq> None
      | _ \<Rightarrow> False)"

lemma parseISODate_not_three_numbers: "\<not> three_numbers s \<Longrightarrow> parseISODate s = InvalidDate"
  by (auto simp: parseISODate_split three_numbers_def Date_ymd_nonfinite finite_int_num_sub
      split: list.splits)

lemma parseISODate_extra_ignored:
  assumes "3 \<le> length (split_on CHR ''-'' s)"
  shows "parseISODate (s @ ''-'' @ t) = parseISODate s"
proof -
  from assms obtain y m d r where sp: "split_on CHR ''-'' s = y # m # d # r"
    by (metis Suc_le_length_iff numeral_3_eq_3)
  then show ?thesis
    by (simp add: parseISODate_split split_on_append_general)
qed

lemma c5_parse: "parseISODate ''2024-01-15-99'' = LocalDay 19737"
  by (simp add: parse_eval)


lemma c5_nomatch: "\<not> spec_date_key_pattern ''2024-01-15-99''"
  by (simp add: spec_date_key_pattern_def)

lemma c5_key: "toISODate (LocalDay 19737) = ''2024-01-15''"
  by (simp add: key_eval)

lemma c5_garbage: "\<not> three_numbers ''garbage''" "\<not> three_numbers ''2024-01''"
  by (simp_all add: three_numbers_def)

text \<open>
  C5 (as stated: every string outside the three-component shape makes \<open>parseISODate\<close> fail).
  \<open>parseISODate\<close> has no error result: it returns a date for every string, and the
  destructuring drops the components after the third, so \<open>2024-01-15-99\<close> parses as
  15 January 2024.
\<close>

theorem C5_counterexample:
  "\<not> spec_date_key_pattern ''2024-01-15-99''
   \<and> parseISODate ''2024-01-15-99'' = LocalDay 19737
   \<and> toISODate (LocalDay 19737) = ''2024-01-15''"
  by (simp add: c5_nomatch c5_parse c5_key)

text \<open>
  C5 (amended).  \<open>parseISODate\<close> raises no error.  For every string with fewer than three
  components, or with one of the first three components not a finite number, it returns
  the invalid date; components after the third are ignored.
\<close>

theorem C5_invalid_date_not_error:
  "(\<not> three_numbers s \<longrightarrow> parseISODate s = InvalidDate)
   \<and> (3 \<le> length (split_on CHR ''-'' s) \<longrightarrow> parseISODate (s @ ''-'' @ t) = parseISODate s)"
  by (blast intro: parseISODate_not_three_numbers parseISODate_extra_ignored)

theorem C5_invalid_date_not_error_witness:
  "\<not> three_numbers ''garbage'' \<and> parseISODate ''garbage'' = InvalidDate
   \<and> \<not> three_numbers ''2024-01'' \<and> parseISODate ''2024-01'' = InvalidDate
   \<and> 3 \<le> length (split_on CHR ''-'' ''2024-01-15'')
   \<and> parseISODate (''2024-01-15'' @ ''-'' @ ''99'') = parseISODate ''2024-01-15''"
  using C5_invalid_date_not_error [of "''garbage''" "[]"]
    C5_invalid_date_not_error [of "''2024-01''" "[]"]
    C5_invalid_date_not_error [of "''2024-01-15''" "''99''"]
    c5_garbage
  by simp

section \<open>Rates without active habits\<close>

lemma percent_zero: "percent n 0 = 0"
  by (simp add: percent_def)

lemma weekly_loop_set:
  "p \<in> set (weekly_loop hs c wso now i) \<Longrightarrow> \<exists>j. p = weekly_point_at hs c wso now j"
proof (induction hs c wso now i rule: weekly_loop.induct)
  case (1 hs c wso now i)
  then show ?case
    by (subst (asm) weekly_loop.simps) (auto split: if_splits)
qed

lemma monthly_loop_set:
  "p \<in> set (monthly_loop hs c now i) \<Longrightarrow> \<exists>j. p = monthly_point_at hs c now j"
proof (induction hs c now i rule: monthly_loop.induct)
  case (1 hs c now i)
  then show ?case
    by (subst (asm) monthly_loop.simps) (auto split: if_splits)
qed

text \<open>
  C4.  When no habit of the list is active, every point of \<open>rollupDaily\<close>, \<open>rollupWeekly\<close>
  and \<open>rollupMonthly\<close> and the summary of \<open>getTodaySummary\<close> have rate 0, for every log,
  window and clock reading: the guard on the denominator gives 0 and nothing is divided.
\<close>

theorem C4_zero_active_rate_zero:
  assumes "getActiveHabits hs = []"
  shows "(\<forall>p \<in> set (rollupDaily hs c startISO endISO). daily_point.rate p = 0)
       \<and> (\<forall>p \<in> set (rollupWeekly hs c weeksBack wso now). weekly_point.rate p = 0)
       \<and> (\<forall>p \<in> set (rollupMonthly hs c monthsBack now). monthly_point.rate p = 0)
       \<and> day_summary.rate (getTodaySummary hs c dateKey) = 0"
proof (intro conjI ballI)
  fix p assume "p \<in> set (rollupDaily hs c startISO endISO)"
  then show "daily_point.rate p = 0"
    using assms by (auto simp: rollupDaily_def percent_zero)
next
  fix p assume "p \<in> set (rollupWeekly hs c weeksBack wso now)"
  then obtain j where "p = weekly_point_at hs c wso now j"
    unfolding rollupWeekly_def by (blast dest: weekly_loop_set)
  then show "weekly_point.rate p = 0"
    using assms by (simp add: weekly_point_at_def Let_def percent_zero)
next
  fix p assume "p \<in> set (rollupMonthly hs c monthsBack now)"
  then obtain j where "p = monthly_point_at hs c now j"
    unfolding rollupMonthly_def by (blast dest: monthly_loop_set)
  then show "monthly_point.rate p = 0"
    using assms by (simp add: monthly_point_at_def Let_def percent_zero)
next
  show "day_summary.rate (getTodaySummary hs c dateKey) = 0"
    using assms by (simp add: getTodaySummary_def percent_zero)
qed

definition example_inactive :: habit where
  "example_inactive =
     \<lparr> hid = ''a'', name = ''Read'', targetPerWeek = 5, active = False,
       createdAtISO = ''2024-03-01'', habit_notes = '''' \<rparr>"

definition example_log :: completions where
  "example_log = fmupd ''2024-03-18'' (fmupd ''a'' True fmempty) fmempty"

lemma parse_example: "parseISODate ''2024-03-18'' = LocalDay 19800"
  by (simp add: parse_eval)

lemma rollupDaily_example_nonempty:
  "rollupDaily hs c ''2024-03-18'' ''2024-03-18'' \<noteq> []"
  unfolding rollupDaily_def dateRangeInclusive_def
  by (subst range_loop.simps) (simp add: setHours0_def parse_example date_le_def Let_def)

lemma rollupWeekly_nonempty: "1 \<le> n \<Longrightarrow> rollupWeekly hs c n wso now \<noteq> []"
  unfolding rollupWeekly_def by (subst weekly_loop.simps) simp

lemma rollupMonthly_nonempty: "1 \<le> n \<Longrightarrow> rollupMonthly hs c n now \<noteq> []"
  unfolding rollupMonthly_def by (subst monthly_loop.simps) simp

theorem C4_zero_active_rate_zero_witness:
  "getActiveHabits [example_inactive] = []
   \<and> rollupDaily [example_inactive] example_log ''2024-03-18'' ''2024-03-18'' \<noteq> []
   \<and> daily_point.rate
        (hd (rollupDaily [example_inactive] example_log ''2024-03-18'' ''2024-03-18'')) = 0
   \<and> rollupWeekly [example_inactive] example_log 12 1 (LocalDay 19800) \<noteq> []
   \<and> weekly_point.rate
        (hd (rollupWeekly [example_inactive] example_log 12 1 (LocalDay 19800))) = 0
   \<and> rollupMonthly [example_inactive] example_log 12 (LocalDay 19800) \<noteq> []
   \<and> monthly_point.rate
        (hd (rollupMonthly [example_inactive] example_log 12 (LocalDay 19800))) = 0
   \<and> day_summary.rate (getTodaySummary [example_inactive] example_log ''2024-03-18'') = 0"
proof -
  have none: "getActiveHabits [example_inactive] = []"
    by (simp add: getActiveHabits_def example_inactive_def)
  note zero = C4_zero_active_rate_zero [OF none, of example_log "''2024-03-18''"
      "''2024-03-18''" 12 1 "LocalDay 19800" 12 "''2024-03-18''"]
  show ?thesis
    using none zero rollupDaily_example_nonempty [of "[example_inactive]" example_log]
      rollupWeekly_nonempty [of 12 "[example_inactive]" example_log 1 "LocalDay 19800"]
      rollupMonthly_nonempty [of 12 "[example_inactive]" example_log "LocalDay 19800"]
    by (simp add: hd_in_set)
qed


section \<open>The current streak\<close>

lemma streak_loop_le: "streak_loop c h t i s \<le> s + nat (3650 - i)"
proof (induction c h t i s rule: streak_loop.induct)
  case (1 c h t i s)
  show ?case
  proof (cases "i < 3650 \<and> isCompleted c (toISODate (addDays (parseISODate t) (- i))) h")
    case True
    then have "streak_loop c h t i s = streak_loop c h t (i + 1) (s + 1)"
      by (subst streak_loop.simps) simp
    also have "\<dots> \<le> s + 1 + nat (3650 - (i + 1))"
      using True by (intro "1.IH") simp_all
    also have "\<dots> = s + nat (3650 - i)"
      using True by arith
    finally show ?thesis .
  next
    case False
    then have "streak_loop c h t i s = s"
      by (subst streak_loop.simps) auto
    then show ?thesis by simp
  qed
qed

lemma streak_loop_full:
  assumes "\<forall>j. i \<le> j \<and> j < 3650 \<longrightarrow> isCompleted c (toISODate (addDays (parseISODate t) (- j))) h"
  shows "streak_loop c h t i s = s + nat (3650 - i)"
  using assms
proof (induction c h t i s rule: streak_loop.induct)
  case (1 c h t i s)
  show ?case
  proof (cases "i < 3650")
    case True
    with "1.prems" have cmpl: "isCompleted c (toISODate (addDays (parseISODate t) (- i))) h"
      by simp
    have "streak_loop c h t i s = streak_loop c h t (i + 1) (s + 1)"
      using True cmpl by (subst streak_loop.simps) simp
    also have "\<dots> = s + 1 + nat (3650 - (i + 1))"
      using True cmpl "1.prems" by (intro "1.IH") simp_all
    also have "\<dots> = s + nat (3650 - i)"
      using True by arith
    finally show ?thesis .
  next
    case False
    then show ?thesis by (subst streak_loop.simps) simp
  qed
qed

text \<open>
  C10.  \<open>computeStreak\<close> never returns more than 3650, and when the habit is completed on
  each of the 3650 days the loop visits, it returns exactly 3650, whatever was completed
  before them.
\<close>

theorem C10_computeStreak_capped:
  "computeStreak h c now \<le> 3650
   \<and> ((\<forall>i. 0 \<le> i \<and> i < 3650 \<longrightarrow>
          isCompleted c (toISODate (addDays (parseISODate (toISODate now)) (- i))) h)
        \<longrightarrow> computeStreak h c now = 3650)"
  using streak_loop_le [of c h "toISODate now" 0 0]
    streak_loop_full [of 0 c "toISODate now" h 0]
  by (simp add: computeStreak_def)

definition example_long_log :: completions where
  "example_long_log =
     fmap_of_list (map (\<lambda>k. (toISODate (LocalDay (19800 - int k)), fmupd ''a'' True fmempty))
       [0..<4000])"

lemma map_of_const_image:
  "k \<in> set xs \<Longrightarrow> map_of (map (\<lambda>k. (f k, v)) xs) (f k) = Some v"
  by (induction xs) auto

lemma example_long_log_completed:
  assumes "0 \<le> i" "i < 4000"
  shows "isCompleted example_long_log (toISODate (LocalDay (19800 - i))) ''a''"
proof -
  have "nat i \<in> set [0..<4000]" using assms by simp
  then have "map_of (map (\<lambda>k. (toISODate (LocalDay (19800 - int k)), fmupd ''a'' True fmempty))
      [0..<4000]) (toISODate (LocalDay (19800 - int (nat i)))) = Some (fmupd ''a'' True fmempty)"
    by (rule map_of_const_image)
  then show ?thesis
    using assms
    by (simp add: isCompleted_def day_member_def example_long_log_def fmlookup_of_list)
qed

theorem C10_computeStreak_capped_witness:
  "computeStreak ''a'' example_long_log (LocalDay 19800) = 3650
   \<and> isCompleted example_long_log (toISODate (LocalDay (19800 - 3650))) ''a''"
proof -
  have rt: "parseISODate (toISODate (LocalDay 19800)) = LocalDay 19800"
    by (rule parseISODate_roundtrip) (simp_all add: year_19800)
  have "\<forall>i. 0 \<le> i \<and> i < 3650 \<longrightarrow>
      isCompleted example_long_log
        (toISODate (addDays (parseISODate (toISODate (LocalDay 19800))) (- i))) ''a''"
    by (simp add: rt addDays_LocalDay TimeClip_def example_long_log_completed)
  with C10_computeStreak_capped [of "''a''" example_long_log "LocalDay 19800"]
  have "computeStreak ''a'' example_long_log (LocalDay 19800) = 3650" by blast
  moreover have "isCompleted example_long_log (toISODate (LocalDay (19800 - 3650))) ''a''"
    by (rule example_long_log_completed) simp_all
  ultimately show ?thesis by simp
qed

section \<open>Time zones with clock changes\<close>

text \<open>
  The day numbers above are the dates of the program in a time zone whose offset never
  changes.  In general a valid \<open>Date\<close> is an instant, in milliseconds since the epoch, and
  the local fields are those of the instant plus the offset in force.  A zone is given by
  its offset at the beginning and the list of its clock changes in ascending order, each
  the instant of the change and the offset from then on.  \<open>LocalTime\<close> adds the offset in
  force at an instant.  \<open>UTC\<close> takes a local time back to an instant: at each clock change
  a local time that the change skips or repeats is read with the offset before the change,
  as the language standard has it.  A skipped local midnight therefore becomes the first
  instant after the change: at a change that puts the clocks forward by an hour, 01:00.
\<close>

datatype jstime = InvalidTime | Instant int

type_synonym zone = "int \<times> (int \<times> int) list"

definition msPerDay :: int where
  "msPerDay = 86400000"

fun offset_from :: "int \<Rightarrow> (int \<times> int) list \<Rightarrow> int \<Rightarrow> int" where
  "offset_from off [] t = off"
| "offset_from off ((T, off') # changes) t =
     (if t < T then off else offset_from off' changes t)"

fun local_offset_from :: "int \<Rightarrow> (int \<times> int) list \<Rightarrow> int \<Rightarrow> int" where
  "local_offset_from off [] lt = off"
| "local_offset_from off ((T, off') # changes) lt =
     (if lt < T + max off off' then off else local_offset_from off' changes lt)"

definition LocalTime :: "zone \<Rightarrow> int \<Rightarrow> int" where
  "LocalTime tz t = t + offset_from (fst tz) (snd tz) t"

definition UTC :: "zone \<Rightarrow> int \<Rightarrow> int" where
  "UTC tz lt = lt - local_offset_from (fst tz) (snd tz) lt"

definition Day :: "int \<Rightarrow> int" where
  "Day t = t div msPerDay"

definition TimeWithinDay :: "int \<Rightarrow> int" where
  "TimeWithinDay t = t mod msPerDay"

definition MakeDate :: "int \<Rightarrow> int \<Rightarrow> int" where
  "MakeDate day time = day * msPerDay + time"

definition TimeClip_ms :: "int \<Rightarrow> jstime" where
  "TimeClip_ms t = (if \<bar>t\<bar> \<le> 8640000000000000 then Instant t else InvalidTime)"

text \<open>
  The operations of \<open>Date\<close> on instants.  \<open>new Date(y, m, d)\<close> is local midnight of the
  day; \<open>setDate\<close> and \<open>setMonth\<close> replace one local field and keep the local time of
  day; \<open>setHours(0, 0, 0, 0)\<close> is local midnight of the local day; each result goes
  through \<open>UTC\<close> and \<open>TimeClip\<close>.  \<open>d <= end\<close> compares the instants.
\<close>

definition Date_ymd_tz :: "zone \<Rightarrow> jsnum \<Rightarrow> jsnum \<Rightarrow> jsnum \<Rightarrow> jstime" where
  "Date_ymd_tz tz y m d =
     (case (finite_int y, finite_int m, finite_int d) of
        (Some yi, Some mi, Some di) \<Rightarrow>
          TimeClip_ms (UTC tz
            (MakeDate (MakeDay (if 0 \<le> yi \<and> yi \<le> 99 then 1900 + yi else yi) mi di) 0))
      | _ \<Rightarrow> InvalidTime)"

definition local_day :: "zone \<Rightarrow> jstime \<Rightarrow> int option" where
  "local_day tz d = (case d of InvalidTime \<Rightarrow> None | Instant t \<Rightarrow> Some (Day (LocalTime tz t)))"

definition getFullYear_tz :: "zone \<Rightarrow> jstime \<Rightarrow> int option" where
  "getFullYear_tz tz d = map_option YearFromTime (local_day tz d)"

definition getMonth_tz :: "zone \<Rightarrow> jstime \<Rightarrow> int option" where
  "getMonth_tz tz d = map_option MonthFromTime (local_day tz d)"

definition getDate_tz :: "zone \<Rightarrow> jstime \<Rightarrow> int option" where
  "getDate_tz tz d = map_option DateFromTime (local_day tz d)"

definition getDay_tz :: "zone \<Rightarrow> jstime \<Rightarrow> int option" where
  "getDay_tz tz d = map_option WeekDay (local_day tz d)"

definition setDate_tz :: "zone \<Rightarrow> jstime \<Rightarrow> int option \<Rightarrow> jstime" where
  "setDate_tz tz d dt =
     (case (d, dt) of
        (Instant t, Some n) \<Rightarrow>
          (let lt = LocalTime tz t
           in TimeClip_ms (UTC tz
                (MakeDate (MakeDay (YearFromTime (Day lt)) (MonthFromTime (Day lt)) n)
                   (TimeWithinDay lt))))
      | _ \<Rightarrow> InvalidTime)"

definition setMonth_tz :: "zone \<Rightarrow> jstime \<Rightarrow> int option \<Rightarrow> jstime" where
  "setMonth_tz tz d m =
     (case (d, m) of
        (Instant t, Some n) \<Rightarrow>
          (let lt = LocalTime tz t
           in TimeClip_ms (UTC tz
                (MakeDate (MakeDay (YearFromTime (Day lt)) n (DateFromTime (Day lt)))
                   (TimeWithinDay lt))))
      | _ \<Rightarrow> InvalidTime)"

definition setHours0_tz :: "zone \<Rightarrow> jstime \<Rightarrow> jstime" where
  "setHours0_tz tz d =
     (case d of
        Instant t \<Rightarrow> TimeClip_ms (UTC tz (MakeDate (Day (LocalTime tz t)) 0))
      | InvalidTime \<Rightarrow> InvalidTime)"

definition toISODate_tz :: "zone \<Rightarrow> jstime \<Rightarrow> string" where
  "toISODate_tz tz dt =
     String_num (getFullYear_tz tz dt) @ ''-'' @ pad2 (num_add (getMonth_tz tz dt) 1) @ ''-''
       @ pad2 (getDate_tz tz dt)"

definition parseISODate_tz :: "zone \<Rightarrow> string \<Rightarrow> jstime" where
  "parseISODate_tz tz isoStr =
     (let parts = map Number (split_on CHR ''-'' isoStr);
          y = nth_num parts 0; m = nth_num parts 1; d = nth_num parts 2
      in Date_ymd_tz tz y (num_sub m 1) d)"

definition addDays_tz :: "zone \<Rightarrow> jstime \<Rightarrow> int \<Rightarrow> jstime" where
  "addDays_tz tz date n = setDate_tz tz date (num_add (getDate_tz tz date) n)"

definition time_le :: "jstime \<Rightarrow> jstime \<Rightarrow> bool" where
  "time_le a b = (case (a, b) of (Instant x, Instant y) \<Rightarrow> x \<le> y | _ \<Rightarrow> False)"

definition startOfWeek_tz :: "zone \<Rightarrow> jstime \<Rightarrow> int \<Rightarrow> jstime" where
  "startOfWeek_tz tz date wso =
     (let day = getDay_tz tz date;
          diff = map_option (\<lambda>dy. js_rem (dy - wso + 7) 7) day
      in setHours0_tz tz (setDate_tz tz date
           (case (getDate_tz tz date, diff) of (Some dt, Some df) \<Rightarrow> Some (dt - df) | _ \<Rightarrow> None)))"

definition startOfMonth_tz :: "zone \<Rightarrow> jstime \<Rightarrow> jstime" where
  "startOfMonth_tz tz date = setHours0_tz tz (setDate_tz tz date (Some 1))"

text \<open>
  The utilities and rollups over instants, statement by statement as before.  Nothing
  bounds the number of rounds of the loop of \<open>dateRangeInclusive\<close> in an arbitrary zone,
  so the loop returns an option, \<open>None\<close> when it does not end.
\<close>

partial_function (option) range_loop_tz :: "zone \<Rightarrow> jstime \<Rightarrow> jstime \<Rightarrow> string list option" where
  "range_loop_tz tz d e =
     (if time_le d e
      then Option.bind (range_loop_tz tz (addDays_tz tz d 1) e)
             (\<lambda>out. Some (toISODate_tz tz d # out))
      else Some [])"

declare range_loop_tz.simps [code]

definition dateRangeInclusive_tz :: "zone \<Rightarrow> string \<Rightarrow> string \<Rightarrow> string list option" where
  "dateRangeInclusive_tz tz startISO endISO =
     (let start = setHours0_tz tz (parseISODate_tz tz startISO);
          en = setHours0_tz tz (parseISODate_tz tz endISO)
      in range_loop_tz tz start en)"

text \<open>
  Havana in 2024: five hours behind UTC, four hours behind from Sunday 10 March, 00:00
  local time (05:00 UTC), when the clocks went forward to 01:00, until Sunday 3 November,
  01:00 local time (05:00 UTC).
\<close>

definition Havana_2024 :: zone where
  "Havana_2024 = (- 18000000, [(1710046800000, - 14400000), (1730610000000, - 18000000)])"

definition week_days_tz :: "zone \<Rightarrow> int \<Rightarrow> jstime \<Rightarrow> int \<Rightarrow> string \<times> string list option" where
  "week_days_tz tz wso now i =
     (let thisWeekStart = startOfWeek_tz tz now wso;
          ws = addDays_tz tz thisWeekStart (- 7 * i);
          we = addDays_tz tz ws 6;
          wsISO = toISODate_tz tz ws;
          weISO = toISODate_tz tz we
      in (wsISO, dateRangeInclusive_tz tz wsISO weISO))"

definition weekly_point_of :: "habit list \<Rightarrow> completions \<Rightarrow> string \<Rightarrow> string list \<Rightarrow> weekly_point" where
  "weekly_point_of hs c wsISO days =
     (let act = getActiveHabits hs;
          per = perHabit_count c act days;
          ct = sum_values per;
          tp = length act * 7
      in \<lparr> weekStartISO = wsISO, weekly_point.completedTotal = ct,
           weekly_point.totalPossible = tp, weekly_point.rate = percent ct tp,
           weekly_point.perHabit = per \<rparr>)"

function weekly_loop_tz ::
  "habit list \<Rightarrow> completions \<Rightarrow> zone \<Rightarrow> int \<Rightarrow> jstime \<Rightarrow> int \<Rightarrow> weekly_point list option" where
  "weekly_loop_tz hs c tz wso now i =
     (if 0 \<le> i
      then (case snd (week_days_tz tz wso now i) of
              None \<Rightarrow> None
            | Some days \<Rightarrow>
                (case weekly_loop_tz hs c tz wso now (i - 1) of
                   None \<Rightarrow> None
                 | Some weeks \<Rightarrow>
                     Some (weekly_point_of hs c (fst (week_days_tz tz wso now i)) days # weeks)))
      else Some [])"
  by pat_completeness auto
termination
  by (relation "measure (\<lambda>(hs, c, tz, wso, now, i). nat (i + 1))") auto

declare weekly_loop_tz.simps [simp del]

definition rollupWeekly_tz ::
  "habit list \<Rightarrow> completions \<Rightarrow> int \<Rightarrow> int \<Rightarrow> zone \<Rightarrow> jstime \<Rightarrow> weekly_point list option" where
  "rollupWeekly_tz hs c weeksBack wso tz now = weekly_loop_tz hs c tz wso now (weeksBack - 1)"

definition month_days_tz :: "zone \<Rightarrow> jstime \<Rightarrow> int \<Rightarrow> string \<times> string list option" where
  "month_days_tz tz now i =
     (let cur = startOfMonth_tz tz now;
          mStart = setHours0_tz tz
                     (setDate_tz tz (setMonth_tz tz cur (num_add (getMonth_tz tz cur) (- i)))
                        (Some 1));
          nextStart = setMonth_tz tz mStart (num_add (getMonth_tz tz mStart) 1);
          startISO = toISODate_tz tz mStart;
          endISO = toISODate_tz tz (addDays_tz tz nextStart (- 1))
      in (startISO, dateRangeInclusive_tz tz startISO endISO))"

definition monthly_point_of :: "habit list \<Rightarrow> completions \<Rightarrow> string \<Rightarrow> string list \<Rightarrow> monthly_point" where
  "monthly_point_of hs c startISO days =
     (let act = getActiveHabits hs;
          per = perHabit_count c act days;
          ct = sum_values per;
          tp = length act * length days
      in \<lparr> monthISO = startISO, monthly_point.completedTotal = ct,
           monthly_point.totalPossible = tp, monthly_point.rate = percent ct tp,
           daysInMonth = length days, monthly_point.perHabit = per \<rparr>)"

function monthly_loop_tz ::
  "habit list \<Rightarrow> completions \<Rightarrow> zone \<Rightarrow> jstime \<Rightarrow> int \<Rightarrow> monthly_point list option" where
  "monthly_loop_tz hs c tz now i =
     (if 0 \<le> i
      then (case snd (month_days_tz tz now i) of
              None \<Rightarrow> None
            | Some days \<Rightarrow>
                (case monthly_loop_tz hs c tz now (i - 1) of
                   None \<Rightarrow> None
                 | Some months \<Rightarrow>
                     Some (monthly_point_of hs c (fst (month_days_tz tz now i)) days # months)))
      else Some [])"
  by pat_completeness auto
termination
  by (relation "measure (\<lambda>(hs, c, tz, now, i). nat (i + 1))") auto

declare monthly_loop_tz.simps [simp del]

definition rollupMonthly_tz ::
  "habit list \<Rightarrow> completions \<Rightarrow> int \<Rightarrow> zone \<Rightarrow> jstime \<Rightarrow> monthly_point list option" where
  "rollupMonthly_tz hs c monthsBack tz now = monthly_loop_tz hs c tz now (monthsBack - 1)"

section \<open>A clock change at local midnight\<close>

text \<open>
  In Havana, between the first days of 2024 and the autumn change, the instant five hours
  after UTC midnight of day \<open>z\<close> is local midnight up to 9 March and 01:00 from 10 March
  on.  \<open>addDays\<close> keeps this form, and so does the loop variable of \<open>dateRangeInclusive\<close>
  once it has passed 10 March; the end of the range is a local midnight, four hours after
  UTC midnight, which the loop variable exceeds on the last day.
\<close>

lemma Day_mult: "0 \<le> r \<Longrightarrow> r < 86400000 \<Longrightarrow> Day (z * 86400000 + r) = z"
  "0 \<le> r \<Longrightarrow> r < 86400000 \<Longrightarrow> TimeWithinDay (z * 86400000 + r) = r"
  by (simp_all add: Day_def TimeWithinDay_def msPerDay_def div_pos_pos_trivial)

lemma Day_mult0: "Day (z * 86400000) = z" "TimeWithinDay (z * 86400000) = 0"
  by (simp_all add: Day_def TimeWithinDay_def msPerDay_def)

lemma havana_local:
  assumes "19724 \<le> z" "z \<le> 20000"
  shows "LocalTime Havana_2024 (z * 86400000 + 18000000)
       = z * 86400000 + (if z < 19792 then 0 else 3600000)"
  using assms by (simp add: LocalTime_def Havana_2024_def)

lemma havana_utc:
  assumes "19724 \<le> z" "z \<le> 20000"
  shows "UTC Havana_2024 (z * 86400000) = z * 86400000 + (if z \<le> 19792 then 18000000 else 14400000)"
    and "UTC Havana_2024 (z * 86400000 + 3600000)
       = z * 86400000 + 3600000 + (if z < 19792 then 18000000 else 14400000)"
  using assms by (simp_all add: UTC_def Havana_2024_def)


lemma havana_local_day:
  assumes "19724 \<le> z" "z \<le> 20000"
  shows "local_day Havana_2024 (Instant (z * 86400000 + 18000000)) = Some z"
  using assms by (simp add: local_day_def havana_local Day_mult Day_mult0)

lemma havana_key:
  assumes "19724 \<le> z" "z \<le> 20000"
  shows "toISODate_tz Havana_2024 (Instant (z * 86400000 + 18000000)) = toISODate (LocalDay z)"
  using assms
  by (simp add: toISODate_tz_def toISODate_def getFullYear_tz_def getMonth_tz_def getDate_tz_def
      getFullYear_def getMonth_def getDate_def havana_local_day)

lemma havana_addDays:
  assumes "19724 \<le> z" "z \<le> 20000" "19724 \<le> z + n" "z + n \<le> 20000"
    and "z < 19792 \<and> z + n \<le> 19792 \<or> 19792 \<le> z \<and> 19792 \<le> z + n"
  shows "addDays_tz Havana_2024 (Instant (z * 86400000 + 18000000)) n
       = Instant ((z + n) * 86400000 + 18000000)"
proof -
  define w where "w = z + n"
  have f: "MakeDay (YearFromTime z) (MonthFromTime z) (DateFromTime z + n) = w"
    unfolding w_def by (rule MakeDay_fields)
  have w: "19724 \<le> w" "w \<le> 20000" using assms by (simp_all add: w_def)
  have "setDate_tz Havana_2024 (Instant (z * 86400000 + 18000000)) (Some (DateFromTime z + n))
      = Instant (w * 86400000 + 18000000)"
  proof (cases "z < 19792")
    case True
    with assms have "w \<le> 19792" by (simp add: w_def)
    then show ?thesis
      using assms(1,2) w True havana_utc(1) [of w]
      by (simp add: setDate_tz_def havana_local Day_mult0 f MakeDate_def msPerDay_def
          TimeClip_ms_def Let_def)
  next
    case False
    with assms have "19792 \<le> w" by (simp add: w_def)
    then show ?thesis
      using assms(1,2) w False havana_utc(2) [of w]
      by (simp add: setDate_tz_def havana_local Day_mult f MakeDate_def msPerDay_def
          TimeClip_ms_def Let_def)
  qed
  then show ?thesis
    using assms(1,2)
    by (simp add: addDays_tz_def getDate_tz_def havana_local_day num_add_def w_def)
qed

lemma havana_range_loop:
  assumes "19724 \<le> a" "b \<le> 20000" "19792 < b"
  shows "range_loop_tz Havana_2024 (Instant (a * 86400000 + 18000000))
           (Instant (b * 86400000 + 14400000))
       = Some (map (\<lambda>z. toISODate (LocalDay z)) [a .. b - 1])"
  using assms
proof (induction "nat (b - a)" arbitrary: a)
  case 0
  then have "b \<le> a" by simp
  then have "\<not> time_le (Instant (a * 86400000 + 18000000)) (Instant (b * 86400000 + 14400000))"
    by (simp add: time_le_def)
  then show ?case
    using \<open>b \<le> a\<close> by (subst range_loop_tz.simps) simp
next
  case (Suc k)
  then have ab: "a < b" by simp
  then have le: "time_le (Instant (a * 86400000 + 18000000)) (Instant (b * 86400000 + 14400000))"
    by (simp add: time_le_def)
  have step: "addDays_tz Havana_2024 (Instant (a * 86400000 + 18000000)) 1
      = Instant ((a + 1) * 86400000 + 18000000)"
    using Suc.prems ab by (intro havana_addDays) auto
  have key: "toISODate_tz Havana_2024 (Instant (a * 86400000 + 18000000))
      = toISODate (LocalDay a)"
    using Suc.prems ab by (intro havana_key) simp_all
  have IH: "range_loop_tz Havana_2024 (Instant ((a + 1) * 86400000 + 18000000))
      (Instant (b * 86400000 + 14400000))
      = Some (map (\<lambda>z. toISODate (LocalDay z)) [a + 1 .. b - 1])"
    using Suc.hyps(2) Suc.prems ab by (intro Suc.hyps(1)) simp_all
  have u: "[a .. b - 1] = a # [a + 1 .. b - 1]"
    using ab by (simp add: upto_rec1)
  have "range_loop_tz Havana_2024 (Instant (a * 86400000 + 18000000))
      (Instant (b * 86400000 + 14400000))
      = Option.bind (range_loop_tz Havana_2024
            (addDays_tz Havana_2024 (Instant (a * 86400000 + 18000000)) 1)
            (Instant (b * 86400000 + 14400000)))
          (\<lambda>out. Some (toISODate_tz Havana_2024 (Instant (a * 86400000 + 18000000)) # out))"
    by (subst range_loop_tz.simps) (simp only: le if_True)
  also have "\<dots> = Some (toISODate (LocalDay a) # map (\<lambda>z. toISODate (LocalDay z)) [a + 1 .. b - 1])"
    unfolding step IH key by simp
  finally show ?case unfolding u by simp
qed

lemma parseISODate_tz_LocalDay:
  assumes "parseISODate s = LocalDay z"
  shows "parseISODate_tz tz s = TimeClip_ms (UTC tz (z * 86400000))"
  using assms
  by (auto simp: parseISODate_def parseISODate_tz_def Date_ymd_def Date_ymd_tz_def Let_def
      TimeClip_def MakeDate_def msPerDay_def split: option.splits if_splits)

lemma havana_setHours0:
  assumes "19724 \<le> z" "z \<le> 20000" "0 \<le> r" "r < 86400000"
    and "t = z * 86400000 + r + (if z < 19792 then 18000000 else 14400000)"
    and "z = 19792 \<longrightarrow> 3600000 \<le> r"
  shows "setHours0_tz Havana_2024 (Instant t)
       = Instant (z * 86400000 + (if z \<le> 19792 then 18000000 else 14400000))"
proof -
  have "LocalTime Havana_2024 t = z * 86400000 + r"
    using assms by (auto simp: LocalTime_def Havana_2024_def)
  then show ?thesis
    using assms(1-4) havana_utc(1) [of z]
    by (simp add: setHours0_tz_def Day_mult MakeDate_def msPerDay_def TimeClip_ms_def)
qed

lemma march_days:
  "MakeDay 2024 2 10 = 19792" "MakeDay 2024 2 16 = 19798" "MakeDay 2024 2 1 = 19783"
  "MakeDay 2024 2 31 = 19813"
  by (simp_all add: MakeDay_def DayFromYear_def month_start_def InLeapYear_def)

lemma march_parse:
  "parseISODate ''2024-03-10'' = LocalDay 19792"
  "parseISODate ''2024-03-16'' = LocalDay 19798"
  "parseISODate ''2024-03-01'' = LocalDay 19783"
  "parseISODate ''2024-03-31'' = LocalDay 19813"
  by (simp_all add: parse_eval)

lemma march_keys:
  "toISODate (LocalDay 19783) = ''2024-03-01''"
  "toISODate (LocalDay 19792) = ''2024-03-10''"
  "toISODate (LocalDay 19793) = ''2024-03-11''"
  "toISODate (LocalDay 19794) = ''2024-03-12''"
  "toISODate (LocalDay 19795) = ''2024-03-13''"
  "toISODate (LocalDay 19796) = ''2024-03-14''"
  "toISODate (LocalDay 19797) = ''2024-03-15''"
  "toISODate (LocalDay 19798) = ''2024-03-16''"
  "toISODate (LocalDay 19812) = ''2024-03-30''"
  "toISODate (LocalDay 19813) = ''2024-03-31''"
  by (simp_all add: key_eval)

lemma havana_parse:
  "parseISODate_tz Havana_2024 ''2024-03-10'' = Instant (19792 * 86400000 + 18000000)"
  "parseISODate_tz Havana_2024 ''2024-03-16'' = Instant (19798 * 86400000 + 14400000)"
  "parseISODate_tz Havana_2024 ''2024-03-01'' = Instant (19783 * 86400000 + 18000000)"
  "parseISODate_tz Havana_2024 ''2024-03-31'' = Instant (19813 * 86400000 + 14400000)"
  using havana_utc(1) [of 19792] havana_utc(1) [of 19798] havana_utc(1) [of 19783]
    havana_utc(1) [of 19813]
  by (simp_all add: parseISODate_tz_LocalDay [OF march_parse(1)]
      parseISODate_tz_LocalDay [OF march_parse(2)] parseISODate_tz_LocalDay [OF march_parse(3)]
      parseISODate_tz_LocalDay [OF march_parse(4)] TimeClip_ms_def)

lemma havana_week_range:
  "dateRangeInclusive_tz Havana_2024 ''2024-03-10'' ''2024-03-16''
     = Some [''2024-03-10'', ''2024-03-11'', ''2024-03-12'', ''2024-03-13'', ''2024-03-14'',
             ''2024-03-15'']"
proof -
  have s: "setHours0_tz Havana_2024 (Instant (19792 * 86400000 + 18000000))
      = Instant (19792 * 86400000 + 18000000)"
    using havana_setHours0 [of 19792 3600000] by simp
  have e: "setHours0_tz Havana_2024 (Instant (19798 * 86400000 + 14400000))
      = Instant (19798 * 86400000 + 14400000)"
    using havana_setHours0 [of 19798 0] by simp
  have u: "[19792 .. 19798 - 1] = [19792, 19793, 19794, 19795, 19796, 19797::int]"
    by (simp add: upto_rec1)
  show ?thesis
    unfolding dateRangeInclusive_tz_def Let_def havana_parse s e
    using havana_range_loop [of 19792 19798]
    by (simp add: u march_keys)
qed

text \<open>Tuesday 12 March 2024, noon in Havana.\<close>

definition noon_12_march :: jstime where
  "noon_12_march = Instant (19794 * 86400000 + 43200000 + 14400000)"

lemma noon_local: "LocalTime Havana_2024 (19794 * 86400000 + 43200000 + 14400000)
    = 19794 * 86400000 + 43200000"
  by (simp add: LocalTime_def Havana_2024_def)

lemma noon_local_day: "local_day Havana_2024 noon_12_march = Some 19794"
  using Day_mult(1) [of 43200000 19794]
  by (simp add: local_day_def noon_12_march_def LocalTime_def Havana_2024_def)

lemma day_19794:
  "YearFromTime 19794 = 2024" "MonthFromTime 19794 = 2" "DateFromTime 19794 = 12"
  "WeekDay 19794 = 2"
  by (simp_all add: key_eval WeekDay_def)

lemma day_19792:
  "YearFromTime 19792 = 2024" "MonthFromTime 19792 = 2" "DateFromTime 19792 = 10"
  "WeekDay 19792 = 0"
  by (simp_all add: key_eval WeekDay_def)

lemma noon_key: "toISODate_tz Havana_2024 noon_12_march = ''2024-03-12''"
  using march_keys(4)
  by (simp add: toISODate_tz_def toISODate_def getFullYear_tz_def getMonth_tz_def
      getDate_tz_def getFullYear_def getMonth_def getDate_def noon_local_day)

lemma noon_startOfWeek:
  "startOfWeek_tz Havana_2024 noon_12_march 0 = Instant (19792 * 86400000 + 18000000)"
proof -
  have d: "setDate_tz Havana_2024 noon_12_march (Some 10)
      = Instant (19792 * 86400000 + 43200000 + 14400000)"
    using Day_mult [of 43200000 19794]
    by (simp add: setDate_tz_def noon_12_march_def LocalTime_def Havana_2024_def Let_def
        day_19794 march_days MakeDate_def msPerDay_def UTC_def TimeClip_ms_def)
  have h: "setHours0_tz Havana_2024 (Instant (19792 * 86400000 + 43200000 + 14400000))
      = Instant (19792 * 86400000 + 18000000)"
    using havana_setHours0 [of 19792 43200000] by simp
  show ?thesis
    using d h
    by (simp add: startOfWeek_tz_def getDay_tz_def getDate_tz_def noon_local_day day_19794
        js_rem_def)
qed

lemma noon_week_days:
  "week_days_tz Havana_2024 0 noon_12_march 0
     = (''2024-03-10'',
        Some [''2024-03-10'', ''2024-03-11'', ''2024-03-12'', ''2024-03-13'', ''2024-03-14'',
              ''2024-03-15''])"
proof -
  have ws: "addDays_tz Havana_2024 (Instant (19792 * 86400000 + 18000000)) (- 7 * 0)
      = Instant (19792 * 86400000 + 18000000)"
    using havana_addDays [of 19792 0] by simp
  have we: "addDays_tz Havana_2024 (Instant (19792 * 86400000 + 18000000)) 6
      = Instant (19798 * 86400000 + 18000000)"
    using havana_addDays [of 19792 6] by simp
  have k1: "toISODate_tz Havana_2024 (Instant (19792 * 86400000 + 18000000)) = ''2024-03-10''"
    using havana_key [of 19792] by (simp add: march_keys)
  have k2: "toISODate_tz Havana_2024 (Instant (19798 * 86400000 + 18000000)) = ''2024-03-16''"
    using havana_key [of 19798] by (simp add: march_keys)
  show ?thesis
    unfolding week_days_tz_def Let_def noon_startOfWeek ws we k1 k2 havana_week_range ..
qed

text \<open>A log with one completion, on Saturday 16 March 2024.\<close>

definition example_week_log :: completions where
  "example_week_log = fmupd ''2024-03-16'' (fmupd ''a'' True fmempty) fmempty"

definition example_active :: habit where
  "example_active =
     \<lparr> hid = ''a'', name = ''Read'', targetPerWeek = 5, active = True,
       createdAtISO = ''2024-03-01'', habit_notes = '''' \<rparr>"

lemma sum_values_single: "sum_values (fmupd k v fmempty) = v"
proof -
  have "sorted_list_of_fmap (fmupd k v fmempty) = [(k, v)]"
    by (simp add: sorted_list_of_fmap_def sorted_list_of_fset.rep_eq)
  then show ?thesis by (simp add: sum_values_def)
qed

lemma percent_none: "percent 0 n = 0"
proof -
  have "\<lfloor>1 / 2 :: rat\<rfloor> = 0" by (simp add: floor_eq_iff)
  then show ?thesis by (simp add: percent_def round_double_def Math_round_def)
qed

lemma week_count:
  "perHabit_count example_week_log [example_active]
     [''2024-03-10'', ''2024-03-11'', ''2024-03-12'', ''2024-03-13'', ''2024-03-14'',
      ''2024-03-15''] = fmupd ''a'' 0 fmempty"
  by (simp add: perHabit_count_def perHabit_init_def perHabit_bump_def example_active_def
      example_week_log_def isCompleted_def inherited_member_def Object_prototype_names_def)

text \<open>
  C6 (each week spans exactly seven consecutive calendar days).  With the clock at noon of
  Tuesday 12 March 2024 in Havana and weeks starting on Sunday, the current week starts on
  10 March, whose local midnight does not exist.  \<open>rollupWeekly\<close> asks
  \<open>dateRangeInclusive\<close> for the days from 2024-03-10 to 2024-03-16 and gets six: the loop
  variable stands at 01:00 of 16 March when it is compared with the end of the range,
  midnight of 16 March.  A completion on Saturday 16 March is not counted in the week,
  while \<open>totalPossible\<close> is seven per active habit.
\<close>

theorem C6_week_of_six_days:
  "toISODate_tz Havana_2024 noon_12_march = ''2024-03-12''
   \<and> getDay_tz Havana_2024 noon_12_march = Some 2
   \<and> snd (week_days_tz Havana_2024 0 noon_12_march 0)
       = Some [''2024-03-10'', ''2024-03-11'', ''2024-03-12'', ''2024-03-13'', ''2024-03-14'',
               ''2024-03-15'']
   \<and> isCompleted example_week_log ''2024-03-16'' ''a''
   \<and> rollupWeekly_tz [example_active] example_week_log 1 0 Havana_2024 noon_12_march
       = Some [\<lparr> weekStartISO = ''2024-03-10'', weekly_point.completedTotal = 0,
                 weekly_point.totalPossible = 7, weekly_point.rate = 0,
                 weekly_point.perHabit = fmupd ''a'' 0 fmempty \<rparr>]"
proof -
  have act: "getActiveHabits [example_active] = [example_active]"
    by (simp add: getActiveHabits_def example_active_def)
  have l0: "weekly_loop_tz [example_active] example_week_log Havana_2024 0 noon_12_march (- 1)
      = Some []"
    by (subst weekly_loop_tz.simps) simp
  have "rollupWeekly_tz [example_active] example_week_log 1 0 Havana_2024 noon_12_march
      = Some [weekly_point_of [example_active] example_week_log ''2024-03-10''
          [''2024-03-10'', ''2024-03-11'', ''2024-03-12'', ''2024-03-13'', ''2024-03-14'',
           ''2024-03-15'']]"
    unfolding rollupWeekly_tz_def
    by (subst weekly_loop_tz.simps) (simp add: noon_week_days l0)
  moreover have "isCompleted example_week_log ''2024-03-16'' ''a''"
    by (simp add: isCompleted_def example_week_log_def day_member_def)
  ultimately show ?thesis
    by (simp add: noon_key getDay_tz_def noon_local_day day_19794 noon_week_days
        weekly_point_of_def act week_count sum_values_single percent_none)
qed

lemma day_19783:
  "YearFromTime 19783 = 2024" "MonthFromTime 19783 = 2" "DateFromTime 19783 = 1"
  by (simp_all add: key_eval)

lemma day_19814:
  "YearFromTime 19814 = 2024" "MonthFromTime 19814 = 3" "DateFromTime 19814 = 1"
  "MakeDay 2024 3 1 = 19814" "MakeDay 2024 3 0 = 19813"
  by (simp_all add: key_eval MakeDay_def)

lemma noon_startOfMonth:
  "startOfMonth_tz Havana_2024 noon_12_march = Instant (19783 * 86400000 + 18000000)"
proof -
  have d: "setDate_tz Havana_2024 noon_12_march (Some 1)
      = Instant (19783 * 86400000 + 43200000 + 18000000)"
    using Day_mult [of 43200000 19794]
    by (simp add: setDate_tz_def noon_12_march_def LocalTime_def Havana_2024_def Let_def
        day_19794 march_days MakeDate_def msPerDay_def UTC_def TimeClip_ms_def)
  have h: "setHours0_tz Havana_2024 (Instant (19783 * 86400000 + 43200000 + 18000000))
      = Instant (19783 * 86400000 + 18000000)"
    using havana_setHours0 [of 19783 43200000] by simp
  show ?thesis
    using d h by (simp add: startOfMonth_tz_def)
qed

lemma first_of_march:
  "local_day Havana_2024 (Instant (19783 * 86400000 + 18000000)) = Some 19783"
  "setMonth_tz Havana_2024 (Instant (19783 * 86400000 + 18000000)) (Some 2)
     = Instant (19783 * 86400000 + 18000000)"
  "setDate_tz Havana_2024 (Instant (19783 * 86400000 + 18000000)) (Some 1)
     = Instant (19783 * 86400000 + 18000000)"
  "setHours0_tz Havana_2024 (Instant (19783 * 86400000 + 18000000))
     = Instant (19783 * 86400000 + 18000000)"
  "setMonth_tz Havana_2024 (Instant (19783 * 86400000 + 18000000)) (Some 3)
     = Instant (19814 * 86400000 + 14400000)"
  using havana_local_day [of 19783] havana_local [of 19783] havana_utc(1) [of 19783]
    havana_utc(1) [of 19814] havana_setHours0 [of 19783 0] Day_mult0 [of 19783]
  by (simp_all add: setMonth_tz_def setDate_tz_def Let_def day_19783 march_days day_19814
      MakeDate_def msPerDay_def TimeClip_ms_def)

lemma last_of_march:
  "addDays_tz Havana_2024 (Instant (19814 * 86400000 + 14400000)) (- 1)
     = Instant (19813 * 86400000 + 14400000)"
  "toISODate_tz Havana_2024 (Instant (19813 * 86400000 + 14400000)) = ''2024-03-31''"
  "setHours0_tz Havana_2024 (Instant (19813 * 86400000 + 14400000))
     = Instant (19813 * 86400000 + 14400000)"
proof -
  have l: "LocalTime Havana_2024 (19814 * 86400000 + 14400000) = 19814 * 86400000"
    "LocalTime Havana_2024 (19813 * 86400000 + 14400000) = 19813 * 86400000"
    by (simp_all add: LocalTime_def Havana_2024_def)
  have ld: "local_day Havana_2024 (Instant (19814 * 86400000 + 14400000)) = Some 19814"
    "local_day Havana_2024 (Instant (19813 * 86400000 + 14400000)) = Some 19813"
    using Day_mult0 [of 19814] Day_mult0 [of 19813] l by (simp_all add: local_day_def)
  show "addDays_tz Havana_2024 (Instant (19814 * 86400000 + 14400000)) (- 1)
     = Instant (19813 * 86400000 + 14400000)"
    using havana_utc(1) [of 19813] Day_mult0 [of 19814] l ld
    by (simp add: addDays_tz_def getDate_tz_def num_add_def setDate_tz_def Let_def
        day_19814 MakeDate_def msPerDay_def TimeClip_ms_def)
  show "toISODate_tz Havana_2024 (Instant (19813 * 86400000 + 14400000)) = ''2024-03-31''"
    using march_keys(10) ld
    by (simp add: toISODate_tz_def toISODate_def getFullYear_tz_def getMonth_tz_def
        getDate_tz_def getFullYear_def getMonth_def getDate_def)
  show "setHours0_tz Havana_2024 (Instant (19813 * 86400000 + 14400000))
     = Instant (19813 * 86400000 + 14400000)"
    using havana_setHours0 [of 19813 0] by simp
qed

lemma havana_month_range:
  "dateRangeInclusive_tz Havana_2024 ''2024-03-01'' ''2024-03-31''
     = Some (map (\<lambda>z. toISODate (LocalDay z)) [19783 .. 19812])"
  unfolding dateRangeInclusive_tz_def Let_def havana_parse first_of_march last_of_march
  using havana_range_loop [of 19783 19813] by simp

lemma noon_month_days:
  "month_days_tz Havana_2024 noon_12_march 0
     = (''2024-03-01'', Some (map (\<lambda>z. toISODate (LocalDay z)) [19783 .. 19812]))"
proof -
  have m: "num_add (getMonth_tz Havana_2024 (Instant (19783 * 86400000 + 18000000))) (- 0)
      = Some 2"
    "num_add (getMonth_tz Havana_2024 (Instant (19783 * 86400000 + 18000000))) 1 = Some 3"
    using first_of_march(1) by (simp_all add: getMonth_tz_def day_19783 num_add_def)
  have k: "toISODate_tz Havana_2024 (Instant (19783 * 86400000 + 18000000)) = ''2024-03-01''"
    using havana_key [of 19783] by (simp add: march_keys)
  show ?thesis
    unfolding month_days_tz_def Let_def noon_startOfMonth m first_of_march last_of_march k
      havana_month_range ..
qed

text \<open>
  C7 (\<open>daysInMonth\<close> is the number of calendar days of the month and \<open>totalPossible\<close>
  the number of active habits times it).  With the same clock, the monthly point of March
  2024, a month of 31 days, has \<open>daysInMonth\<close> 30 and, for one active habit,
  \<open>totalPossible\<close> 30: the days enumerated end with 30 March.
\<close>

theorem C7_march_of_thirty_days:
  "toISODate_tz Havana_2024 noon_12_march = ''2024-03-12''
   \<and> DaysInMonth 2024 2 = 31
   \<and> length (getActiveHabits [example_active]) = 1
   \<and> map_option (map monthISO)
        (rollupMonthly_tz [example_active] fmempty 1 Havana_2024 noon_12_march)
       = Some [''2024-03-01'']
   \<and> map_option (map daysInMonth)
        (rollupMonthly_tz [example_active] fmempty 1 Havana_2024 noon_12_march)
       = Some [30]
   \<and> map_option (map monthly_point.totalPossible)
        (rollupMonthly_tz [example_active] fmempty 1 Havana_2024 noon_12_march)
       = Some [30]
   \<and> map_option last (snd (month_days_tz Havana_2024 noon_12_march 0)) = Some ''2024-03-30''"
proof -
  have act: "getActiveHabits [example_active] = [example_active]"
    by (simp add: getActiveHabits_def example_active_def)
  have l0: "monthly_loop_tz [example_active] fmempty Havana_2024 noon_12_march (- 1) = Some []"
    by (subst monthly_loop_tz.simps) simp
  have r: "rollupMonthly_tz [example_active] fmempty 1 Havana_2024 noon_12_march
      = Some [monthly_point_of [example_active] fmempty ''2024-03-01''
          (map (\<lambda>z. toISODate (LocalDay z)) [19783 .. 19812])]"
    unfolding rollupMonthly_tz_def
    by (subst monthly_loop_tz.simps) (simp add: noon_month_days l0)
  define ds where "ds = map (\<lambda>z. toISODate (LocalDay z)) [19783 .. 19812]"
  have len: "length ds = 30" by (simp add: ds_def)
  have u: "[19783 .. 19812] = [19783 .. 19811] @ [19812::int]"
    by (simp add: upto_rec2)
  have la: "last ds = ''2024-03-30''"
    unfolding ds_def u by (simp add: march_keys)
  have d: "DaysInMonth 2024 2 = 31"
    by (simp add: DaysInMonth_def month_start_def InLeapYear_def)
  show ?thesis
    unfolding r noon_month_days ds_def [symmetric]
    by (simp add: noon_key monthly_point_of_def act la len d Let_def)
qed

end
